theory Spec2Isabelle
  imports Complex_Main
begin

section \<open>CircuitLab MNA: the assembly-and-solve engine of js/mnaCore.js\<close>

text \<open>
  The engine (\<^verbatim>\<open>MNACore\<close> in js/mnaCore.js, with the helpers of
  \<^verbatim>\<open>MatrixBuilder\<close> in js/matrixBuilder.js) turns a list of circuit elements into the
  linear system \<open>A x = z\<close> of the Modified Nodal Analysis, solves it and maps the solution
  back to node voltages and source currents.

  Numbers. In the definitions that follow the source function by function, JavaScript
  numbers and the \<^verbatim>\<open>Complex\<close> values of math.js are exact real and complex numbers:
  rounding, infinities and NaN are not represented there. Node numbers,
  the node count and the ground node are integers (\<^typ>\<open>int\<close>), element values and the
  frequency are reals, matrix entries are complex (a plain number is a complex number with
  imaginary part zero).

  With exact numbers the only division by zero the engine can perform is the one for an
  inductor of value \<open>0\<close> at a non-zero frequency (JavaScript gives an infinity there); the
  results about whole analyses are stated for circuits whose passive values are positive.

  math.js. The library is loaded from a CDN (README: math.js v11.11.0) and is not among the
  sources. Each operation the engine calls (\<^verbatim>\<open>zeros\<close>, \<^verbatim>\<open>size\<close>, \<^verbatim>\<open>subset\<close>, \<^verbatim>\<open>concat\<close>,
  \<^verbatim>\<open>transpose\<close>, \<^verbatim>\<open>det\<close>, \<^verbatim>\<open>lusolve\<close>) is embedded by what it computes on matrices with
  exact entries, together with the argument checks under which the library raises. With
  its default configuration \<^verbatim>\<open>math.zeros\<close> returns a \<^verbatim>\<open>DenseMatrix\<close>, and so does every
  operation on one: all the matrices of the engine are \<^verbatim>\<open>DenseMatrix\<close> objects.

  Where the rounding of the doubles decides what the engine does (the test of the
  determinant against \<open>1e-10\<close>), the computation is embedded a second time with the
  rounding of IEEE 754, for circuits at frequency \<open>0\<close>, whose matrices hold plain numbers:
  see the subsection on double precision.
\<close>

subsection \<open>Elements\<close>

text \<open>\<^verbatim>\<open>elemento.tipo\<close> is one of the strings 'R', 'C', 'L', 'V', 'I'; every other string
  is \<open>TipoOtro\<close>.\<close>

datatype tipoElemento = TipoR | TipoC | TipoL | TipoV | TipoI | TipoOtro

record elemento =
  tipo :: tipoElemento
  nombre :: string
  nodoPositivo :: int
  nodoNegativo :: int
  valor :: real

subsection \<open>Errors\<close>

text \<open>Every \<^verbatim>\<open>throw\<close> of the engine and every exception of math.js is a value. The
  source distinguishes errors by their message only; each constructor stands for one
  message.\<close>

datatype errorMathjs =
    ZerosTamanoNegativo
  | TransponerSinColumnas nat
  | ConcatDimensiones
  | ConcatIndice
  | DetNoCuadrada
  | LusolveDimensiones
  | LusolveSingular

text \<open>The errors of the engine:
  \<^item> the four validation errors of \<^verbatim>\<open>analizarCircuito\<close>;
  \<^item> \<open>ResistorCero nombre\<close>: 'Resistor nombre tiene valor cero (cortocircuito)';
  \<^item> the index errors of \<^verbatim>\<open>MatrixBuilder\<close> (the index, the number of rows or columns);
  \<^item> \<open>Mathjs e\<close>: an exception of math.js;
  \<^item> the four errors raised inside the \<^verbatim>\<open>try\<close> of \<^verbatim>\<open>resolverSistema\<close>:
    \<open>NoCuadrada r c\<close> ('Matriz A no es cuadrada: r x c'),
    \<open>DimensionesIncompatibles\<close> ('Dimensiones incompatibles: A es ..., z es ...'), both
    with the values the message prints (\<open>None\<close> is \<^verbatim>\<open>undefined\<close>),
    \<open>MatrizSingularDetectada\<close> ('Matriz singular detectada (det ~ 0). Posibles causas: ...'),
    \<open>SinSolucion\<close> ('No se pudo obtener solucion del sistema');
  \<^item> \<open>ErrorAlResolver e\<close>: what the \<^verbatim>\<open>catch\<close> of \<^verbatim>\<open>resolverSistema\<close> throws again for the
    error \<open>e\<close> of its \<^verbatim>\<open>try\<close>. The catch tests the message for the substrings
    'Singular matrix' and 'Dimensions'; none of the engine's own four messages contains
    either, so each is thrown again as 'Error al resolver sistema MNA: ' followed by the
    message. For an exception of math.js the prefix depends on the library's message; the
    embedding does not tell the three prefixes apart.\<close>

datatype error =
    SinElementos
  | PocosNodos
  | TierraInvalida int
  | FrecuenciaNegativa
  | ResistorCero string
  | FilaFueraDeRango int nat
  | ColumnaFueraDeRango int nat
  | Mathjs errorMathjs
  | NoCuadrada "nat option" "nat option"
  | DimensionesIncompatibles "nat option" "nat option" "nat option" "nat option"
  | MatrizSingularDetectada
  | SinSolucion
  | ErrorAlResolver error

text \<open>The diagnostic hint of an error: the circuit-level causes its message lists.\<close>

fun causasPosibles :: "error \<Rightarrow> string list" where
  "causasPosibles (ErrorAlResolver MatrizSingularDetectada) =
     [''Nodo sin conexion a tierra'', ''Lazo de fuentes de voltaje'',
      ''Cortocircuito que viola LKV'', ''Circuito mal definido'']"
| "causasPosibles _ = []"

text \<open>Sequencing of statements that may throw: the first error ends the computation.\<close>

definition luego :: "'e + 'a \<Rightarrow> ('a \<Rightarrow> 'e + 'b) \<Rightarrow> 'e + 'b" where
  "luego m k = (case m of Inl e \<Rightarrow> Inl e | Inr a \<Rightarrow> k a)"

subsection \<open>Matrices of math.js\<close>

text \<open>A dense matrix: its size and its rows. \<^verbatim>\<open>math.zeros(n, 0)\<close> has \<open>n\<close> empty rows,
  \<^verbatim>\<open>math.zeros(0, 1)\<close> has no row and size \<open>[0, 1]\<close>.\<close>

record matriz =
  filas :: nat
  columnas :: nat
  datos :: "complex list list"

text \<open>\<^verbatim>\<open>math.zeros(r, c)\<close>; the library rejects a negative size.\<close>

definition mathZeros :: "int \<Rightarrow> int \<Rightarrow> error + matriz" where
  "mathZeros r c =
     (if r < 0 then Inl (Mathjs ZerosTamanoNegativo)
      else if c < 0 then Inl (Mathjs ZerosTamanoNegativo)
      else Inr \<lparr>filas = nat r, columnas = nat c,
                datos = replicate (nat r) (replicate (nat c) 0)\<rparr>)"

text \<open>\<^verbatim>\<open>math.subset(m, math.index(i, j))\<close> and \<^verbatim>\<open>math.subset(m, math.index(i, j), v)\<close>, for an
  index inside the matrix (the callers check the range first).\<close>

definition obtener :: "matriz \<Rightarrow> nat \<Rightarrow> nat \<Rightarrow> complex" where
  "obtener m i j = datos m ! i ! j"

definition poner :: "matriz \<Rightarrow> nat \<Rightarrow> nat \<Rightarrow> complex \<Rightarrow> matriz" where
  "poner m i j v = m\<lparr>datos := (datos m)[i := (datos m ! i)[j := v]]\<rparr>"

text \<open>\<^verbatim>\<open>math.transpose\<close>. On a two-dimensional matrix whose number of columns is zero the
  library throws (function/matrix/transpose.js of math.js:
  \<^verbatim>\<open>if (columns === 0) throw new RangeError('Cannot transpose a 2D matrix with no columns ...')\<close>);
  the constructor carries the number of rows.\<close>

definition mathTranspose :: "matriz \<Rightarrow> error + matriz" where
  "mathTranspose m =
     (if columnas m = 0 then Inl (Mathjs (TransponerSinColumnas (filas m)))
      else Inr \<lparr>filas = columnas m, columnas = filas m,
                datos = map (\<lambda>j. map (\<lambda>r. r ! j) (datos m)) [0..<columnas m]\<rparr>)"

text \<open>\<^verbatim>\<open>math.concat(a, b, 1)\<close> puts \<open>b\<close> to the right of \<open>a\<close>, \<^verbatim>\<open>math.concat(a, b, 0)\<close>
  puts it below; the other dimension has to agree. The library takes the number of
  dimensions of an operand from its nested array, and the array of a matrix without rows
  is \<^verbatim>\<open>[]\<close>, of one dimension: with one such operand and one that has rows it throws
  ('Dimension mismatch (2 != 1)'); with two such operands it throws an index error along
  dimension 1 and returns the empty matrix along dimension 0.\<close>

definition mathConcat1 :: "matriz \<Rightarrow> matriz \<Rightarrow> error + matriz" where
  "mathConcat1 a b =
     (if filas a = 0 \<and> filas b = 0 then Inl (Mathjs ConcatIndice)
      else if filas a = 0 \<or> filas b = 0 then Inl (Mathjs ConcatDimensiones)
      else if filas a = filas b
      then Inr \<lparr>filas = filas a, columnas = columnas a + columnas b,
                datos = map2 (@) (datos a) (datos b)\<rparr>
      else Inl (Mathjs ConcatDimensiones))"

definition mathConcat0 :: "matriz \<Rightarrow> matriz \<Rightarrow> error + matriz" where
  "mathConcat0 a b =
     (if filas a = 0 \<and> filas b = 0 then Inr \<lparr>filas = 0, columnas = 0, datos = []\<rparr>
      else if filas a = 0 \<or> filas b = 0 then Inl (Mathjs ConcatDimensiones)
      else if columnas a = columnas b
      then Inr \<lparr>filas = filas a + filas b, columnas = columnas a,
                datos = datos a @ datos b\<rparr>
      else Inl (Mathjs ConcatDimensiones))"

text \<open>\<^verbatim>\<open>math.det\<close> and \<^verbatim>\<open>math.lusolve\<close> with exact entries: Gaussian elimination with row
  exchange. With exact entries the determinant and the solution do not depend on which
  non-zero pivot is taken; here it is the first row whose leading entry is not zero. (On
  doubles the library's elimination rounds at every step, and the determinant it returns
  for a singular matrix need not be zero: \<open>mathDetD\<close> below is that computation. The
  engine calls \<^verbatim>\<open>math.lusolve\<close> only after the test of the determinant, and both only on
  matrices with at least one row and one column.)
  \<open>reducir p r\<close> subtracts from the row \<open>r\<close> the multiple of the pivot row \<open>p\<close> that clears
  its leading entry, and drops that entry.\<close>

fun pivote :: "complex list list \<Rightarrow> nat option" where
  "pivote [] = None"
| "pivote (r # rs) = (if hd r = 0 then map_option Suc (pivote rs) else Some 0)"

definition reducir :: "complex list \<Rightarrow> complex list \<Rightarrow> complex list" where
  "reducir p r = tl (map2 (\<lambda>a b. b - hd r / hd p * a) p r)"

definition quitar :: "nat \<Rightarrow> 'a list \<Rightarrow> 'a list" where
  "quitar k xs = take k xs @ drop (Suc k) xs"

definition escalar :: "complex list \<Rightarrow> complex list \<Rightarrow> complex" where
  "escalar xs ys = sum_list (map2 (*) xs ys)"

primrec detElim :: "nat \<Rightarrow> complex list list \<Rightarrow> complex" where
  "detElim 0 rows = 1"
| "detElim (Suc n) rows =
     (case pivote rows of
        None \<Rightarrow> 0
      | Some k \<Rightarrow> (- 1) ^ k * hd (rows ! k) *
                 detElim n (map (reducir (rows ! k)) (quitar k rows)))"

text \<open>The rows of \<open>resolverElim\<close> are those of the augmented matrix \<open>[A | z]\<close>.\<close>

primrec resolverElim :: "nat \<Rightarrow> complex list list \<Rightarrow> complex list option" where
  "resolverElim 0 rows = Some []"
| "resolverElim (Suc n) rows =
     (case pivote rows of
        None \<Rightarrow> None
      | Some k \<Rightarrow>
          (case resolverElim n (map (reducir (rows ! k)) (quitar k rows)) of
             None \<Rightarrow> None
           | Some xs \<Rightarrow>
               Some ((last (rows ! k) - escalar (butlast (tl (rows ! k))) xs) / hd (rows ! k)
                     # xs)))"

definition mathDet :: "matriz \<Rightarrow> error + complex" where
  "mathDet a =
     (if filas a = columnas a then Inr (detElim (filas a) (datos a))
      else Inl (Mathjs DetNoCuadrada))"

definition mathLusolve :: "matriz \<Rightarrow> matriz \<Rightarrow> error + matriz" where
  "mathLusolve a z =
     (if filas a = columnas a \<and> filas z = filas a \<and> columnas z = 1
      then (case resolverElim (filas a) (map2 (@) (datos a) (datos z)) of
              None \<Rightarrow> Inl (Mathjs LusolveSingular)
            | Some xs \<Rightarrow> Inr \<lparr>filas = filas a, columnas = 1, datos = map (\<lambda>v. [v]) xs\<rparr>)
      else Inl (Mathjs LusolveDimensiones))"

subsection \<open>js/matrixBuilder.js\<close>

text \<open>\<^verbatim>\<open>MatrixBuilder.establecerElemento\<close> and \<^verbatim>\<open>MatrixBuilder.sumarElemento\<close>: the range of
  both indices is checked before the entry is written.\<close>

definition establecerElemento :: "matriz \<Rightarrow> int \<Rightarrow> int \<Rightarrow> complex \<Rightarrow> error + matriz" where
  "establecerElemento matriz fila columna v =
     (if fila < 0 then Inl (FilaFueraDeRango fila (filas matriz))
      else if int (filas matriz) \<le> fila then Inl (FilaFueraDeRango fila (filas matriz))
      else if columna < 0 then Inl (ColumnaFueraDeRango columna (columnas matriz))
      else if int (columnas matriz) \<le> columna
        then Inl (ColumnaFueraDeRango columna (columnas matriz))
      else Inr (poner matriz (nat fila) (nat columna) v))"

definition sumarElemento :: "matriz \<Rightarrow> int \<Rightarrow> int \<Rightarrow> complex \<Rightarrow> error + matriz" where
  "sumarElemento matriz fila columna v =
     (if fila < 0 then Inl (FilaFueraDeRango fila (filas matriz))
      else if int (filas matriz) \<le> fila then Inl (FilaFueraDeRango fila (filas matriz))
      else if columna < 0 then Inl (ColumnaFueraDeRango columna (columnas matriz))
      else if int (columnas matriz) \<le> columna
        then Inl (ColumnaFueraDeRango columna (columnas matriz))
      else Inr (poner matriz (nat fila) (nat columna)
                  (obtener matriz (nat fila) (nat columna) + v)))"

subsection \<open>js/mnaCore.js: the node index\<close>

text \<open>\<^verbatim>\<open>nodoAIndice\<close> (the ground node has no row: index \<open>-1\<close>), and the expression
  \<^verbatim>\<open>(i < groundNode) ? i : i + 1\<close> by which \<^verbatim>\<open>analizarCircuito\<close> goes back from a row to
  its node (the source names its value \<^verbatim>\<open>nodoReal\<close>).\<close>

definition nodoAIndice :: "int \<Rightarrow> int \<Rightarrow> int" where
  "nodoAIndice nodo groundNode =
     (if nodo = groundNode then - 1
      else if nodo < groundNode then nodo
      else nodo - 1)"

definition nodoReal :: "int \<Rightarrow> int \<Rightarrow> int" where
  "nodoReal i groundNode = (if i < groundNode then i else i + 1)"

subsection \<open>js/mnaCore.js: the conductance matrix G\<close>

text \<open>The \<^verbatim>\<open>switch\<close> of \<^verbatim>\<open>construirMatrizG\<close> that computes \<^verbatim>\<open>conductancia\<close> for one passive
  element, with \<^verbatim>\<open>omega = 2 * Math.PI * frequency\<close>. A resistor of value zero throws; no
  other value is tested.\<close>

definition conductancia :: "elemento \<Rightarrow> real \<Rightarrow> error + complex" where
  "conductancia elemento frequency =
     (let omega = 2 * pi * frequency in
      case tipo elemento of
        TipoR \<Rightarrow>
          if valor elemento = 0 then Inl (ResistorCero (nombre elemento))
          else Inr (complex_of_real (1 / valor elemento))
      | TipoC \<Rightarrow>
          if frequency = 0 then Inr 0
          else Inr (Complex 0 (omega * valor elemento))
      | TipoL \<Rightarrow>
          if frequency = 0 then Inr 1000000000000
          else Inr (Complex 0 (- 1 / (omega * valor elemento)))
      | _ \<Rightarrow> Inr 0)"

text \<open>One round of the loop over \<^verbatim>\<open>elementosPasivos\<close>: the conductance first, then the two
  diagonal entries and the two off-diagonal entries, each under its test of the index.\<close>

definition estampaG :: "int \<Rightarrow> real \<Rightarrow> matriz \<Rightarrow> elemento \<Rightarrow> error + matriz" where
  "estampaG groundNode frequency G elemento =
     luego (conductancia elemento frequency) (\<lambda>y.
       let i = nodoAIndice (nodoPositivo elemento) groundNode;
           j = nodoAIndice (nodoNegativo elemento) groundNode
       in
       luego (if 0 \<le> i then sumarElemento G i i y else Inr G) (\<lambda>G1.
       luego (if 0 \<le> j then sumarElemento G1 j j y else Inr G1) (\<lambda>G2.
       if 0 \<le> i \<and> 0 \<le> j
       then luego (sumarElemento G2 i j (- y)) (\<lambda>G3. sumarElemento G3 j i (- y))
       else Inr G2)))"

fun estamparG :: "int \<Rightarrow> real \<Rightarrow> matriz \<Rightarrow> elemento list \<Rightarrow> error + matriz" where
  "estamparG groundNode frequency G [] = Inr G"
| "estamparG groundNode frequency G (elemento # resto) =
     luego (estampaG groundNode frequency G elemento) (\<lambda>G'.
       estamparG groundNode frequency G' resto)"

definition esPasivo :: "elemento \<Rightarrow> bool" where
  "esPasivo e = (tipo e = TipoR \<or> tipo e = TipoC \<or> tipo e = TipoL)"

definition construirMatrizG :: "elemento list \<Rightarrow> int \<Rightarrow> int \<Rightarrow> real \<Rightarrow> error + matriz" where
  "construirMatrizG elementos numNodes groundNode frequency =
     luego (mathZeros (numNodes - 1) (numNodes - 1)) (\<lambda>G.
       estamparG groundNode frequency G (filter esPasivo elementos))"

subsection \<open>js/mnaCore.js: the blocks B, C and D and the matrix A\<close>

definition esFuenteV :: "elemento \<Rightarrow> bool" where
  "esFuenteV e = (tipo e = TipoV)"

definition esFuenteI :: "elemento \<Rightarrow> bool" where
  "esFuenteI e = (tipo e = TipoI)"

text \<open>The loop of \<^verbatim>\<open>construirMatrizB\<close> over the voltage sources, \<open>j\<close> the column of the
  source: the entries are set, not added.\<close>

fun estamparB :: "int \<Rightarrow> matriz \<Rightarrow> nat \<Rightarrow> elemento list \<Rightarrow> error + matriz" where
  "estamparB groundNode B j [] = Inr B"
| "estamparB groundNode B j (fuente # resto) =
     (let iPosIndice = nodoAIndice (nodoPositivo fuente) groundNode;
          iNegIndice = nodoAIndice (nodoNegativo fuente) groundNode
      in
      luego (if 0 \<le> iPosIndice then establecerElemento B iPosIndice (int j) 1
             else Inr B) (\<lambda>B1.
      luego (if 0 \<le> iNegIndice then establecerElemento B1 iNegIndice (int j) (- 1)
             else Inr B1) (\<lambda>B2.
      estamparB groundNode B2 (Suc j) resto)))"

definition construirMatrizB :: "elemento list \<Rightarrow> int \<Rightarrow> int \<Rightarrow> error + matriz" where
  "construirMatrizB elementos numNodes groundNode =
     (let fuentesVoltaje = filter esFuenteV elementos;
          m = length fuentesVoltaje
      in
      if m = 0 then mathZeros (numNodes - 1) 0
      else luego (mathZeros (numNodes - 1) (int m)) (\<lambda>B.
             estamparB groundNode B 0 fuentesVoltaje))"

definition construirMatrizC :: "matriz \<Rightarrow> error + matriz" where
  "construirMatrizC B = mathTranspose B"

definition construirMatrizD :: "nat \<Rightarrow> error + matriz" where
  "construirMatrizD numFuentesVoltaje = mathZeros (int numFuentesVoltaje) (int numFuentesVoltaje)"

definition ensamblarMatrizA :: "matriz \<Rightarrow> matriz \<Rightarrow> matriz \<Rightarrow> matriz \<Rightarrow> error + matriz" where
  "ensamblarMatrizA G B C D =
     luego (mathConcat1 G B) (\<lambda>filaSuperior.
     luego (mathConcat1 C D) (\<lambda>filaInferior.
     mathConcat0 filaSuperior filaInferior))"

subsection \<open>js/mnaCore.js: the vectors i, e and z\<close>

fun estamparI :: "int \<Rightarrow> matriz \<Rightarrow> elemento list \<Rightarrow> error + matriz" where
  "estamparI groundNode i [] = Inr i"
| "estamparI groundNode i (fuente # resto) =
     (let corriente = complex_of_real (valor fuente);
          iPos = nodoAIndice (nodoPositivo fuente) groundNode;
          iNeg = nodoAIndice (nodoNegativo fuente) groundNode
      in
      luego (if 0 \<le> iPos then sumarElemento i iPos 0 corriente else Inr i) (\<lambda>i1.
      luego (if 0 \<le> iNeg then sumarElemento i1 iNeg 0 (- corriente) else Inr i1) (\<lambda>i2.
      estamparI groundNode i2 resto)))"

definition construirVectorI :: "elemento list \<Rightarrow> int \<Rightarrow> int \<Rightarrow> error + matriz" where
  "construirVectorI elementos numNodes groundNode =
     luego (mathZeros (numNodes - 1) 1) (\<lambda>i.
       estamparI groundNode i (filter esFuenteI elementos))"

text \<open>The loop of \<^verbatim>\<open>construirVectorE\<close>: \<^verbatim>\<open>e.subset(math.index(j, 0), valor)\<close> for the source
  \<open>j\<close>, always inside the vector.\<close>

fun llenarE :: "matriz \<Rightarrow> nat \<Rightarrow> elemento list \<Rightarrow> matriz" where
  "llenarE e j [] = e"
| "llenarE e j (fuente # resto) =
     llenarE (poner e j 0 (complex_of_real (valor fuente))) (Suc j) resto"

definition construirVectorE :: "elemento list \<Rightarrow> error + matriz" where
  "construirVectorE elementos =
     (let fuentesVoltaje = filter esFuenteV elementos;
          m = length fuentesVoltaje
      in
      if m = 0 then mathZeros 0 1
      else luego (mathZeros (int m) 1) (\<lambda>e. Inr (llenarE e 0 fuentesVoltaje)))"

definition ensamblarVectorZ :: "matriz \<Rightarrow> matriz \<Rightarrow> error + matriz" where
  "ensamblarVectorZ i e = mathConcat0 i e"

subsection \<open>js/mnaCore.js: resolverSistema\<close>

text \<open>\<^verbatim>\<open>math.size\<close> of a \<^verbatim>\<open>DenseMatrix\<close> is again a \<^verbatim>\<open>DenseMatrix\<close>, which holds the two
  sizes in its \<^verbatim>\<open>_data\<close>. \<^verbatim>\<open>resolverSistema\<close> reads \<^verbatim>\<open>sizeA[0]\<close>, \<^verbatim>\<open>sizeA[1]\<close>, \<^verbatim>\<open>sizeZ[0]\<close>
  and \<^verbatim>\<open>sizeZ[1]\<close> from that object, and \<^verbatim>\<open>x.length\<close> from the solution of
  \<^verbatim>\<open>math.lusolve\<close>: a \<^verbatim>\<open>DenseMatrix\<close> has none of these properties, and JavaScript gives
  \<^verbatim>\<open>undefined\<close> (\<open>None\<close>) for each, whatever the matrix. (\<^verbatim>\<open>MatrixBuilder\<close> reads
  \<^verbatim>\<open>dims._data[0]\<close> and \<^verbatim>\<open>dims._data[1]\<close>, which are the sizes.)\<close>

datatype tamano = Tamano "nat list"

definition mathSize :: "matriz \<Rightarrow> tamano" where
  "mathSize m = Tamano [filas m, columnas m]"

fun propiedad :: "tamano \<Rightarrow> nat \<Rightarrow> nat option" where
  "propiedad (Tamano datosInternos) k = None"

definition longitud :: "matriz \<Rightarrow> nat option" where
  "longitud x = None"

text \<open>The \<^verbatim>\<open>try\<close> block: the two tests of the sizes (\<^verbatim>\<open>!==\<close> between two values that are
  both \<^verbatim>\<open>undefined\<close> is false), the determinant against \<open>1e-10\<close>, \<^verbatim>\<open>math.lusolve\<close>, and the
  test \<^verbatim>\<open>!x || x.length === 0\<close> of the solution (an object is never falsy). The \<^verbatim>\<open>catch\<close>
  throws every error again (see \<open>ErrorAlResolver\<close>).\<close>

definition intentarResolver :: "matriz \<Rightarrow> matriz \<Rightarrow> error + matriz" where
  "intentarResolver A z =
     (let sizeA = mathSize A in
      if propiedad sizeA 0 \<noteq> propiedad sizeA 1
      then Inl (NoCuadrada (propiedad sizeA 0) (propiedad sizeA 1))
      else
        let sizeZ = mathSize z in
        if propiedad sizeA 0 \<noteq> propiedad sizeZ 0
        then Inl (DimensionesIncompatibles (propiedad sizeA 0) (propiedad sizeA 1)
                    (propiedad sizeZ 0) (propiedad sizeZ 1))
        else
          luego (mathDet A) (\<lambda>det.
            if cmod det < 1 / 10 ^ 10 then Inl MatrizSingularDetectada
            else luego (mathLusolve A z) (\<lambda>x.
                   if longitud x = Some 0 then Inl SinSolucion else Inr x)))"

definition resolverSistema :: "matriz \<Rightarrow> matriz \<Rightarrow> error + matriz" where
  "resolverSistema A z =
     (case intentarResolver A z of
        Inl e \<Rightarrow> Inl (ErrorAlResolver e)
      | Inr x \<Rightarrow> Inr x)"

subsection \<open>js/mnaCore.js: analizarCircuito\<close>

text \<open>The connectivity loop of \<^verbatim>\<open>analizarCircuito\<close>: \<open>pasada\<close> is one run of the \<^verbatim>\<open>for\<close> over
  the elements (the set \<^verbatim>\<open>nodosConectados\<close> and the flag \<^verbatim>\<open>cambio\<close>), \<open>conectar\<close> the
  \<^verbatim>\<open>while (cambio)\<close> around it. Its only effect is a \<^verbatim>\<open>console.warn\<close> when fewer than
  \<^verbatim>\<open>numNodes\<close> nodes were reached: the analysis goes on either way.\<close>

fun pasada :: "elemento list \<Rightarrow> int set \<Rightarrow> bool \<Rightarrow> int set \<times> bool" where
  "pasada [] nodosConectados cambio = (nodosConectados, cambio)"
| "pasada (elem # resto) nodosConectados cambio =
     (if nodoPositivo elem \<in> nodosConectados \<and> nodoNegativo elem \<notin> nodosConectados
      then pasada resto (insert (nodoNegativo elem) nodosConectados) True
      else if nodoNegativo elem \<in> nodosConectados \<and> nodoPositivo elem \<notin> nodosConectados
      then pasada resto (insert (nodoPositivo elem) nodosConectados) True
      else pasada resto nodosConectados cambio)"

definition nodosDe :: "elemento list \<Rightarrow> int set" where
  "nodosDe elementos = set (map nodoPositivo elementos) \<union> set (map nodoNegativo elementos)"

function conectar :: "elemento list \<Rightarrow> int set \<Rightarrow> int set" where
  "conectar elementos nodosConectados =
     (case pasada elementos nodosConectados False of
        (nodosConectados', cambio) \<Rightarrow>
          if cambio then conectar elementos nodosConectados' else nodosConectados')"
  by pat_completeness auto
termination
proof (relation "measure (\<lambda>(elementos, S). card (nodosDe elementos - S))")
  show "wf (measure (\<lambda>(elementos, S). card (nodosDe elementos - S)))" by simp
next
  fix elementos :: "elemento list" and S x :: "int set" and S' c'
  assume a: "(S', c') = pasada elementos S False" and c: "c'"
  have crece: "S \<subseteq> S' \<and> S' \<subseteq> S \<union> nodosDe els \<and> (c' \<longrightarrow> c \<or> S \<noteq> S')"
    if "pasada els S c = (S', c')" for els S c S' c'
    using that
  proof (induction els arbitrary: S c)
    case Nil
    then show ?case by simp
  next
    case (Cons elem resto)
    have n: "nodosDe (elem # resto) =
               insert (nodoPositivo elem) (insert (nodoNegativo elem) (nodosDe resto))"
      by (auto simp: nodosDe_def)
    consider (pos) "nodoPositivo elem \<in> S" "nodoNegativo elem \<notin> S"
      | (neg) "nodoNegativo elem \<in> S" "nodoPositivo elem \<notin> S"
      | (nada) "nodoPositivo elem \<in> S \<longleftrightarrow> nodoNegativo elem \<in> S" by blast
    then show ?case
    proof cases
      case pos
      with Cons.prems have "pasada resto (insert (nodoNegativo elem) S) True = (S', c')" by simp
      from Cons.IH[OF this] pos show ?thesis unfolding n by auto
    next
      case neg
      with Cons.prems have "pasada resto (insert (nodoPositivo elem) S) True = (S', c')" by simp
      from Cons.IH[OF this] neg show ?thesis unfolding n by auto
    next
      case nada
      with Cons.prems have "pasada resto S c = (S', c')" by (auto split: if_splits)
      from Cons.IH[OF this] show ?thesis unfolding n by auto
    qed
  qed
  from crece[OF a[symmetric]] c
  have sub: "S \<subseteq> S'" "S' \<subseteq> S \<union> nodosDe elementos" "S \<noteq> S'" by auto
  have fin: "finite (nodosDe elementos - S)" by (simp add: nodosDe_def)
  have "nodosDe elementos - S' \<subset> nodosDe elementos - S" using sub by auto
  then have "card (nodosDe elementos - S') < card (nodosDe elementos - S)"
    using fin by (rule psubset_card_mono[rotated])
  then show "((elementos, S'), (elementos, S)) \<in> measure (\<lambda>(elementos, S). card (nodosDe elementos - S))"
    by simp
qed

definition advierteNodosSinTierra :: "elemento list \<Rightarrow> int \<Rightarrow> int \<Rightarrow> bool" where
  "advierteNodosSinTierra elementos numNodes groundNode =
     (int (card (conectar elementos {groundNode})) < numNodes)"

text \<open>The object \<^verbatim>\<open>analizarCircuito\<close> returns. \<^verbatim>\<open>voltajes\<close> is keyed by the node number,
  \<^verbatim>\<open>corrientes\<close> by the name of the voltage source; on failure \<^verbatim>\<open>matrices\<close> is \<^verbatim>\<open>null\<close>
  and there is no \<^verbatim>\<open>info\<close>, on success there is no \<^verbatim>\<open>error\<close>.\<close>

record matricesMNA =
  matA :: matriz
  matX :: matriz
  matZ :: matriz
  matG :: matriz
  matB :: matriz
  matC :: matriz
  matD :: matriz

record infoMNA =
  numNodos :: int
  numNodosSinTierra :: nat
  numFuentesVoltaje :: nat
  numFuentesCorriente :: nat
  numResistores :: nat
  numCapacitores :: nat
  numInductores :: nat
  frecuencia :: real
  tipoAnalisis :: string
  determinante :: complex

record resultado =
  exito :: bool
  error :: "error option"
  voltajes :: "int \<rightharpoonup> complex"
  corrientes :: "string \<rightharpoonup> complex"
  matrices :: "matricesMNA option"
  info :: "infoMNA option"

text \<open>The two loops that read the solution \<open>x\<close>: rows \<open>0 .. n - 1\<close> are the voltages of
  the nodes \<open>nodoReal i\<close>, then the ground node is set to \<open>0\<close>; row \<open>n + j\<close> is the current
  of the voltage source \<open>j\<close>.\<close>

definition extraerVoltajes :: "nat \<Rightarrow> int \<Rightarrow> matriz \<Rightarrow> (int \<rightharpoonup> complex)" where
  "extraerVoltajes n groundNode x =
     (fold (\<lambda>i v. v(nodoReal (int i) groundNode \<mapsto> obtener x i 0)) [0..<n] Map.empty)
       (groundNode \<mapsto> 0)"

fun extraerCorrientes ::
  "nat \<Rightarrow> matriz \<Rightarrow> nat \<Rightarrow> elemento list \<Rightarrow> (string \<rightharpoonup> complex) \<Rightarrow> (string \<rightharpoonup> complex)" where
  "extraerCorrientes n x j [] c = c"
| "extraerCorrientes n x j (fuente # resto) c =
     extraerCorrientes n x (Suc j) resto (c(nombre fuente \<mapsto> obtener x (n + j) 0))"

text \<open>The \<^verbatim>\<open>try\<close> block of \<^verbatim>\<open>analizarCircuito\<close>: validation, the four blocks and \<open>A\<close>, the
  vectors and \<open>z\<close>, the solution, the results. (The connectivity loop between the validation
  and the matrices only warns, see \<open>advierteNodosSinTierra\<close>.)\<close>

definition intentarAnalizar :: "elemento list \<Rightarrow> int \<Rightarrow> int \<Rightarrow> real \<Rightarrow> error + resultado" where
  "intentarAnalizar elementos numNodes groundNode frequency =
     (if elementos = [] then Inl SinElementos
      else if numNodes < 2 then Inl PocosNodos
      else if groundNode < 0 then Inl (TierraInvalida groundNode)
      else if numNodes \<le> groundNode then Inl (TierraInvalida groundNode)
      else if frequency < 0 then Inl FrecuenciaNegativa
      else
        let fuentesVoltaje = filter esFuenteV elementos;
            n = nat (numNodes - 1);
            m = length fuentesVoltaje
        in
        luego (construirMatrizG elementos numNodes groundNode frequency) (\<lambda>G.
        luego (construirMatrizB elementos numNodes groundNode) (\<lambda>B.
        luego (construirMatrizC B) (\<lambda>C.
        luego (construirMatrizD m) (\<lambda>D.
        luego (ensamblarMatrizA G B C D) (\<lambda>A.
        luego (construirVectorI elementos numNodes groundNode) (\<lambda>i.
        luego (construirVectorE elementos) (\<lambda>e.
        luego (ensamblarVectorZ i e) (\<lambda>z.
        luego (resolverSistema A z) (\<lambda>x.
        luego (mathDet A) (\<lambda>det.
        Inr \<lparr>exito = True,
             error = None,
             voltajes = extraerVoltajes n groundNode x,
             corrientes = extraerCorrientes n x 0 fuentesVoltaje Map.empty,
             matrices = Some \<lparr>matA = A, matX = x, matZ = z, matG = G, matB = B,
                              matC = C, matD = D\<rparr>,
             info = Some \<lparr>numNodos = numNodes,
                          numNodosSinTierra = n,
                          numFuentesVoltaje = m,
                          numFuentesCorriente = length (filter esFuenteI elementos),
                          numResistores = length (filter (\<lambda>e. tipo e = TipoR) elementos),
                          numCapacitores = length (filter (\<lambda>e. tipo e = TipoC) elementos),
                          numInductores = length (filter (\<lambda>e. tipo e = TipoL) elementos),
                          frecuencia = frequency,
                          tipoAnalisis = (if frequency = 0 then ''DC'' else ''AC''),
                          determinante = det\<rparr>\<rparr>)))))))))))"

text \<open>The object of the \<^verbatim>\<open>catch\<close> block, and \<^verbatim>\<open>analizarCircuito\<close> itself.\<close>

definition fallo :: "error \<Rightarrow> resultado" where
  "fallo e = \<lparr>exito = False, error = Some e, voltajes = Map.empty, corrientes = Map.empty,
              matrices = None, info = None\<rparr>"

definition analizarCircuito :: "elemento list \<Rightarrow> int \<Rightarrow> int \<Rightarrow> real \<Rightarrow> resultado" where
  "analizarCircuito elementos numNodes groundNode frequency =
     (case intentarAnalizar elementos numNodes groundNode frequency of
        Inl e \<Rightarrow> fallo e
      | Inr r \<Rightarrow> r)"

subsection \<open>Double precision: the matrix A and its determinant at frequency 0\<close>

text \<open>A JavaScript number is a double of IEEE 754 (binary64), and every operation returns
  the double nearest to the exact result, a tie going to the even significand. For a
  positive \<open>a\<close>, \<open>exponente a\<close> is the integer \<open>e\<close> with \<open>2 ^ e \<le> a < 2 ^ (e + 1)\<close>;
  \<open>ulp x\<close> is the distance between the doubles around \<open>x\<close> (\<open>2 ^ (e - 52)\<close>, and
  \<open>2 ^ - 1074\<close> in the subnormal range); \<open>redondear x\<close> is the double nearest to \<open>x\<close>.
  The overflow to an infinity (from \<open>2 ^ 1024\<close> on) and the sign of zero are not
  represented.\<close>

function exponente :: "real \<Rightarrow> int" where
  "exponente a =
     (if 2 \<le> a then exponente (a / 2) + 1
      else if 0 < a \<and> a < 1 then exponente (2 * a) - 1
      else 0)"
  by pat_completeness auto
termination
proof (relation "measure (\<lambda>a. 2 * nat \<lceil>1 / a\<rceil> + nat \<lfloor>a\<rfloor>)")
  show "wf (measure (\<lambda>a. 2 * nat \<lceil>1 / a\<rceil> + nat \<lfloor>a\<rfloor>))" by simp
next
  fix a :: real
  assume a: "2 \<le> a"
  have 1: "\<lceil>1 / a\<rceil> = 1" using a by (simp add: ceiling_eq_iff)
  have "1 \<le> a / 2" using a by simp
  then have 2: "\<lceil>1 / (a / 2)\<rceil> = 1" using a by (simp add: ceiling_eq_iff)
  have "\<lfloor>a / 2\<rfloor> < \<lfloor>a\<rfloor>" using a by linarith
  moreover have "0 \<le> \<lfloor>a / 2\<rfloor>" using a by simp
  ultimately have "nat \<lfloor>a / 2\<rfloor> < nat \<lfloor>a\<rfloor>" by linarith
  with 1 2 show "(a / 2, a) \<in> measure (\<lambda>a. 2 * nat \<lceil>1 / a\<rceil> + nat \<lfloor>a\<rfloor>)" by simp
next
  fix a :: real
  assume "\<not> 2 \<le> a" and a: "0 < a \<and> a < 1"
  have f0: "\<lfloor>a\<rfloor> = 0" using a by (simp add: floor_eq_iff)
  have c: "2 \<le> \<lceil>1 / a\<rceil>"
  proof -
    have "1 < 1 / a" using a by simp
    then show ?thesis by linarith
  qed
  show "(2 * a, a) \<in> measure (\<lambda>a. 2 * nat \<lceil>1 / a\<rceil> + nat \<lfloor>a\<rfloor>)"
  proof (cases "2 * a < 1")
    case True
    then have f1: "\<lfloor>2 * a\<rfloor> = 0" using a by (simp add: floor_eq_iff)
    define y where "y = 1 / a"
    have h: "1 / (2 * a) = y / 2" by (simp add: y_def)
    have y0: "0 < y" using a by (simp add: y_def)
    have "y \<le> of_int \<lceil>y\<rceil>" by (rule le_of_int_ceiling)
    moreover have "(2 :: real) \<le> of_int \<lceil>y\<rceil>" using c unfolding y_def by linarith
    ultimately have "y / 2 \<le> of_int \<lceil>y\<rceil> - 1" by linarith
    then have "y / 2 \<le> of_int (\<lceil>y\<rceil> - 1)" by simp
    then have "\<lceil>y / 2\<rceil> \<le> \<lceil>y\<rceil> - 1" by (simp only: ceiling_le_iff)
    moreover have "0 < \<lceil>y / 2\<rceil>" using y0 by simp
    ultimately have "nat \<lceil>1 / (2 * a)\<rceil> < nat \<lceil>1 / a\<rceil>" unfolding h y_def by linarith
    with f0 f1 show ?thesis by simp
  next
    case False
    then have "1 \<le> 2 * a" "2 * a < 2" using a by simp_all
    then have f1: "\<lfloor>2 * a\<rfloor> = 1" by (simp add: floor_eq_iff)
    have "0 < 1 / (2 * a)" "1 / (2 * a) \<le> 1" using \<open>1 \<le> 2 * a\<close> a by simp_all
    then have c1: "\<lceil>1 / (2 * a)\<rceil> = 1" by (simp add: ceiling_eq_iff)
    from c have "2 \<le> nat \<lceil>1 / a\<rceil>" by linarith
    with f0 f1 c1 show ?thesis by simp
  qed
qed

declare exponente.simps [simp del]

text \<open>\<open>redondeoPar m\<close>: the integer nearest to \<open>m\<close>, the even one of the two when \<open>m\<close> lies
  halfway.\<close>

definition redondeoPar :: "real \<Rightarrow> int" where
  "redondeoPar m =
     (if m - of_int \<lfloor>m\<rfloor> < 1 / 2 then \<lfloor>m\<rfloor>
      else if 1 / 2 < m - of_int \<lfloor>m\<rfloor> then \<lfloor>m\<rfloor> + 1
      else if even \<lfloor>m\<rfloor> then \<lfloor>m\<rfloor>
      else \<lfloor>m\<rfloor> + 1)"

definition ulp :: "real \<Rightarrow> real" where
  "ulp x =
     (if 52 \<le> max (exponente \<bar>x\<bar>) (- 1022)
      then 2 ^ nat (max (exponente \<bar>x\<bar>) (- 1022) - 52)
      else 1 / 2 ^ nat (52 - max (exponente \<bar>x\<bar>) (- 1022)))"

definition redondear :: "real \<Rightarrow> real" where
  "redondear x = of_int (redondeoPar (x / ulp x)) * ulp x"

text \<open>The four operations of JavaScript on numbers, which are also what \<^verbatim>\<open>math.add\<close>,
  \<^verbatim>\<open>math.subtract\<close>, \<^verbatim>\<open>math.multiply\<close> and \<^verbatim>\<open>math.divide\<close> compute for two numbers.\<close>

definition masD :: "real \<Rightarrow> real \<Rightarrow> real" where
  "masD a b = redondear (a + b)"

definition menosD :: "real \<Rightarrow> real \<Rightarrow> real" where
  "menosD a b = redondear (a - b)"

definition porD :: "real \<Rightarrow> real \<Rightarrow> real" where
  "porD a b = redondear (a * b)"

definition entreD :: "real \<Rightarrow> real \<Rightarrow> real" where
  "entreD a b = redondear (a / b)"

text \<open>\<^verbatim>\<open>construirMatrizG\<close> once more, for \<^verbatim>\<open>frequency === 0\<close> and with the operations on
  doubles. At this frequency every conductance is a number (\<open>1 / valor\<close>, \<open>0\<close> or
  \<open>1e12\<close>), and so is every entry of the matrices; an entry is kept as a complex number
  with imaginary part zero, so that the blocks \<open>B\<close>, \<open>C\<close>, \<open>D\<close> and the assembly of \<open>A\<close>,
  which do no arithmetic, are the functions above. \<^verbatim>\<open>elemento.valor\<close> is the double
  nearest to the value of the element.\<close>

definition conductanciaD :: "elemento \<Rightarrow> error + real" where
  "conductanciaD elemento =
     (case tipo elemento of
        TipoR \<Rightarrow>
          if redondear (valor elemento) = 0 then Inl (ResistorCero (nombre elemento))
          else Inr (entreD 1 (redondear (valor elemento)))
      | TipoC \<Rightarrow> Inr 0
      | TipoL \<Rightarrow> Inr 1000000000000
      | _ \<Rightarrow> Inr 0)"

definition sumarElementoD :: "matriz \<Rightarrow> int \<Rightarrow> int \<Rightarrow> real \<Rightarrow> error + matriz" where
  "sumarElementoD matriz fila columna v =
     (if fila < 0 then Inl (FilaFueraDeRango fila (filas matriz))
      else if int (filas matriz) \<le> fila then Inl (FilaFueraDeRango fila (filas matriz))
      else if columna < 0 then Inl (ColumnaFueraDeRango columna (columnas matriz))
      else if int (columnas matriz) \<le> columna
        then Inl (ColumnaFueraDeRango columna (columnas matriz))
      else Inr (poner matriz (nat fila) (nat columna)
                  (complex_of_real (masD (Re (obtener matriz (nat fila) (nat columna))) v))))"

definition estampaGD :: "int \<Rightarrow> matriz \<Rightarrow> elemento \<Rightarrow> error + matriz" where
  "estampaGD groundNode G elemento =
     luego (conductanciaD elemento) (\<lambda>y.
       luego (if 0 \<le> nodoAIndice (nodoPositivo elemento) groundNode
              then sumarElementoD G (nodoAIndice (nodoPositivo elemento) groundNode)
                     (nodoAIndice (nodoPositivo elemento) groundNode) y
              else Inr G) (\<lambda>G1.
       luego (if 0 \<le> nodoAIndice (nodoNegativo elemento) groundNode
              then sumarElementoD G1 (nodoAIndice (nodoNegativo elemento) groundNode)
                     (nodoAIndice (nodoNegativo elemento) groundNode) y
              else Inr G1) (\<lambda>G2.
       if 0 \<le> nodoAIndice (nodoPositivo elemento) groundNode \<and>
          0 \<le> nodoAIndice (nodoNegativo elemento) groundNode
       then luego (sumarElementoD G2 (nodoAIndice (nodoPositivo elemento) groundNode)
                     (nodoAIndice (nodoNegativo elemento) groundNode) (porD (- 1) y)) (\<lambda>G3.
              sumarElementoD G3 (nodoAIndice (nodoNegativo elemento) groundNode)
                (nodoAIndice (nodoPositivo elemento) groundNode) (porD (- 1) y))
       else Inr G2)))"

fun estamparGD :: "int \<Rightarrow> matriz \<Rightarrow> elemento list \<Rightarrow> error + matriz" where
  "estamparGD groundNode G [] = Inr G"
| "estamparGD groundNode G (elemento # resto) =
     luego (estampaGD groundNode G elemento) (\<lambda>G'. estamparGD groundNode G' resto)"

definition construirMatrizGD :: "elemento list \<Rightarrow> int \<Rightarrow> int \<Rightarrow> error + matriz" where
  "construirMatrizGD elementos numNodes groundNode =
     luego (mathZeros (numNodes - 1) (numNodes - 1)) (\<lambda>G.
       estamparGD groundNode G (filter esPasivo elementos))"

text \<open>The matrix \<open>A\<close> as \<^verbatim>\<open>analizarCircuito\<close> assembles it at frequency 0.\<close>

definition ensamblarAD :: "elemento list \<Rightarrow> int \<Rightarrow> int \<Rightarrow> error + matriz" where
  "ensamblarAD elementos numNodes groundNode =
     luego (construirMatrizGD elementos numNodes groundNode) (\<lambda>G.
     luego (construirMatrizB elementos numNodes groundNode) (\<lambda>B.
     luego (construirMatrizC B) (\<lambda>C.
     luego (construirMatrizD (length (filter esFuenteV elementos))) (\<lambda>D.
     ensamblarMatrizA G B C D))))"

text \<open>\<^verbatim>\<open>math.det\<close> on a matrix of numbers (function/matrix/det.js of math.js): the entry
  itself for one row, \<open>a11 * a22 - a21 * a12\<close> for two, and from three rows on the
  fraction-free elimination of Bareiss, each operation rounded. The library keeps the order
  of the rows in \<^verbatim>\<open>rowIndices\<close> and works in place:
  \<^item> \<open>buscar\<close>: when the pivot \<^verbatim>\<open>matrix[rowIndices[k]][k]\<close> is zero, the first later row
    whose entry in column \<open>k\<close> is not; without one the determinant returned is that zero;
  \<^item> \<open>intercambiar\<close>: the exchange of the two positions of \<^verbatim>\<open>rowIndices\<close>, which also
    flips \<^verbatim>\<open>negated\<close>;
  \<^item> \<open>filaNueva\<close>: the entries \<open>j > k\<close> of a row \<open>i\<close> after step \<open>k\<close>,
    \<^verbatim>\<open>(matrix[i][j] * piv - matrix[i][k] * matrix[k_][j]) / piv_\<close>, where \<^verbatim>\<open>piv\<close> is the pivot
    and \<^verbatim>\<open>piv_\<close> the pivot of the step before (\<open>1\<close> in the first step);
  \<^item> \<open>reducirFilas\<close>: the loop over the rows \<^verbatim>\<open>rowIndices[i]\<close>, \<open>i > k\<close> (the pivot row is
    not among them and does not change);
  \<^item> \<open>eliminar\<close>: the loop over \<open>k\<close>, and at its end the last entry of the last row, negated
    when \<^verbatim>\<open>negated\<close> is set.
  The engine calls \<^verbatim>\<open>math.det\<close> on matrices with at least one row.\<close>

fun buscar :: "real list list \<Rightarrow> nat list \<Rightarrow> nat \<Rightarrow> nat list \<Rightarrow> nat option" where
  "buscar matrix rowIndices k [] = None"
| "buscar matrix rowIndices k (c # cs) =
     (if matrix ! (rowIndices ! c) ! k \<noteq> 0 then Some c else buscar matrix rowIndices k cs)"

definition intercambiar :: "nat list \<Rightarrow> nat \<Rightarrow> nat \<Rightarrow> nat list" where
  "intercambiar rowIndices k c =
     (if c = k then rowIndices else rowIndices[c := rowIndices ! k, k := rowIndices ! c])"

fun filaNueva :: "real \<Rightarrow> real \<Rightarrow> real \<Rightarrow> real list \<Rightarrow> real list \<Rightarrow> real list" where
  "filaNueva piv pivAnterior mik (mij # fila) (mkj # filaPivote) =
     entreD (menosD (porD mij piv) (porD mik mkj)) pivAnterior #
     filaNueva piv pivAnterior mik fila filaPivote"
| "filaNueva piv pivAnterior mik [] filaPivote = []"
| "filaNueva piv pivAnterior mik fila [] = []"

fun reducirFilas ::
  "nat \<Rightarrow> real \<Rightarrow> real \<Rightarrow> real list \<Rightarrow> nat list \<Rightarrow> real list list \<Rightarrow> real list list" where
  "reducirFilas k piv pivAnterior filaPivote [] matrix = matrix"
| "reducirFilas k piv pivAnterior filaPivote (i # resto) matrix =
     reducirFilas k piv pivAnterior filaPivote resto
       (matrix[i := take (Suc k) (matrix ! i) @
                     filaNueva piv pivAnterior (matrix ! i ! k) (drop (Suc k) (matrix ! i))
                       (drop (Suc k) filaPivote)])"

definition pasoBareiss :: "nat \<Rightarrow> real list list \<Rightarrow> nat list \<Rightarrow> real list list" where
  "pasoBareiss k matrix rowIndices =
     reducirFilas k (matrix ! (rowIndices ! k) ! k)
       (if k = 0 then 1 else matrix ! (rowIndices ! (k - 1)) ! (k - 1))
       (matrix ! (rowIndices ! k)) (drop (Suc k) rowIndices) matrix"

fun eliminar :: "nat \<Rightarrow> nat list \<Rightarrow> real list list \<Rightarrow> nat list \<Rightarrow> bool \<Rightarrow> real" where
  "eliminar rows [] matrix rowIndices negated =
     (if negated then - (matrix ! (rowIndices ! (rows - 1)) ! (rows - 1))
      else matrix ! (rowIndices ! (rows - 1)) ! (rows - 1))"
| "eliminar rows (k # ks) matrix rowIndices negated =
     (case (if matrix ! (rowIndices ! k) ! k = 0 then buscar matrix rowIndices k [Suc k..<rows]
            else Some k) of
        None \<Rightarrow> matrix ! (rowIndices ! k) ! k
      | Some c \<Rightarrow>
          eliminar rows ks (pasoBareiss k matrix (intercambiar rowIndices k c))
            (intercambiar rowIndices k c) (if c = k then negated else \<not> negated))"

definition detD :: "real list list \<Rightarrow> real" where
  "detD matrix =
     (if length matrix = 1 then matrix ! 0 ! 0
      else if length matrix = 2
      then menosD (porD (matrix ! 0 ! 0) (matrix ! 1 ! 1)) (porD (matrix ! 1 ! 0) (matrix ! 0 ! 1))
      else eliminar (length matrix) [0..<length matrix] matrix [0..<length matrix] False)"

definition mathDetD :: "matriz \<Rightarrow> error + real" where
  "mathDetD a =
     (if filas a = columnas a then Inr (detD (map (map Re) (datos a)))
      else Inl (Mathjs DetNoCuadrada))"

text \<open>The test of the determinant in \<^verbatim>\<open>resolverSistema\<close>, \<^verbatim>\<open>math.abs(det) < 1e-10\<close>, on
  doubles; the literal \<^verbatim>\<open>1e-10\<close> is the double nearest to \<open>1 / 10 ^ 10\<close>. When the test
  fails the function goes on to \<^verbatim>\<open>math.lusolve\<close>.\<close>

definition pruebaSingularD :: "matriz \<Rightarrow> error + real" where
  "pruebaSingularD A =
     luego (mathDetD A) (\<lambda>det.
       if \<bar>det\<bar> < redondear (1 / 10 ^ 10) then Inl MatrizSingularDetectada else Inr det)"

subsection \<open>The stamping rule of the specification\<close>

text \<open>Section 4.2, step 2 of the specification, written down independently of the code:
  the node index with the ground node absent, the admittance of section 4.1 (the inductor
  at frequency zero with the fixed large constant), and for every passive element the
  additions \<open>G[i][i] += y\<close>, \<open>G[j][j] += y\<close>, \<open>G[i][j] -= y\<close>, \<open>G[j][i] -= y\<close> for the
  indices that are present. A position outside the matrix does not exist: adding there
  changes nothing.\<close>

definition NodeIndex :: "int \<Rightarrow> int \<Rightarrow> int option" where
  "NodeIndex referenceNode node =
     (if node = referenceNode then None
      else if node < referenceNode then Some node
      else Some (node - 1))"

definition admitancia :: "elemento \<Rightarrow> real \<Rightarrow> complex" where
  "admitancia e f =
     (case tipo e of
        TipoR \<Rightarrow> 1 / complex_of_real (valor e)
      | TipoC \<Rightarrow> if f = 0 then 0 else \<i> * complex_of_real (2 * pi * f * valor e)
      | TipoL \<Rightarrow> if f = 0 then 10 ^ 12 else - \<i> / complex_of_real (2 * pi * f * valor e)
      | _ \<Rightarrow> 0)"

definition agregar :: "matriz \<Rightarrow> int \<Rightarrow> int \<Rightarrow> complex \<Rightarrow> matriz" where
  "agregar G i j y =
     (if 0 \<le> i \<and> i < int (filas G) \<and> 0 \<le> j \<and> j < int (columnas G)
      then poner G (nat i) (nat j) (obtener G (nat i) (nat j) + y)
      else G)"

definition selloDeReferencia :: "int \<Rightarrow> real \<Rightarrow> elemento \<Rightarrow> matriz \<Rightarrow> matriz" where
  "selloDeReferencia referenceNode f e G =
     (let y = admitancia e f in
      case (NodeIndex referenceNode (nodoPositivo e), NodeIndex referenceNode (nodoNegativo e)) of
        (Some i, Some j) \<Rightarrow> agregar (agregar (agregar (agregar G i i y) j j y) i j (- y)) j i (- y)
      | (Some i, None) \<Rightarrow> agregar G i i y
      | (None, Some j) \<Rightarrow> agregar G j j y
      | (None, None) \<Rightarrow> G)"

definition estampadoDeReferencia :: "elemento list \<Rightarrow> int \<Rightarrow> int \<Rightarrow> real \<Rightarrow> matriz" where
  "estampadoDeReferencia elementos numNodes referenceNode f =
     fold (\<lambda>e G. if esPasivo e then selloDeReferencia referenceNode f e G else G) elementos
       \<lparr>filas = nat (numNodes - 1), columnas = nat (numNodes - 1),
        datos = replicate (nat (numNodes - 1)) (replicate (nat (numNodes - 1)) 0)\<rparr>"

subsection \<open>Well-formed circuits and reachability\<close>

text \<open>The circuits of section 3 of the specification: at least one element, at least two
  nodes, the ground node among them, a frequency that is not negative; every terminal of
  every element is a node of the circuit, the two terminals of an element differ, and the
  value of a passive element is positive. This is what \<^verbatim>\<open>Validator\<close> (js/validator.js)
  checks before the engine is called; the engine itself checks only the part that
  \<open>intentarAnalizar\<close> shows.\<close>

definition elementoValido :: "int \<Rightarrow> elemento \<Rightarrow> bool" where
  "elementoValido numNodes e =
     (0 \<le> nodoPositivo e \<and> nodoPositivo e < numNodes \<and>
      0 \<le> nodoNegativo e \<and> nodoNegativo e < numNodes \<and>
      nodoPositivo e \<noteq> nodoNegativo e \<and>
      (esPasivo e \<longrightarrow> 0 < valor e))"

definition circuitoValido :: "elemento list \<Rightarrow> int \<Rightarrow> int \<Rightarrow> real \<Rightarrow> bool" where
  "circuitoValido elementos numNodes groundNode frequency =
     (elementos \<noteq> [] \<and> 2 \<le> numNodes \<and> 0 \<le> groundNode \<and> groundNode < numNodes \<and>
      0 \<le> frequency \<and> (\<forall>e\<in>set elementos. elementoValido numNodes e))"

text \<open>\<open>esResistorCero\<close>: the one value that \<^verbatim>\<open>construirMatrizG\<close> tests.
  \<open>terminalesEnMatriz\<close>: the indices of both terminals are below the size of \<open>G\<close>, so that
  \<^verbatim>\<open>MatrixBuilder.sumarElemento\<close> accepts them.\<close>

definition esResistorCero :: "elemento \<Rightarrow> bool" where
  "esResistorCero e = (tipo e = TipoR \<and> valor e = 0)"

definition terminalesEnMatriz :: "int \<Rightarrow> int \<Rightarrow> elemento \<Rightarrow> bool" where
  "terminalesEnMatriz numNodes groundNode e =
     (nodoAIndice (nodoPositivo e) groundNode < numNodes - 1 \<and>
      nodoAIndice (nodoNegativo e) groundNode < numNodes - 1)"

text \<open>The nodes reachable from the ground node through the elements, of whatever type.\<close>

inductive_set alcanzables :: "elemento list \<Rightarrow> int \<Rightarrow> int set"
  for elementos :: "elemento list" and groundNode :: int where
  tierra: "groundNode \<in> alcanzables elementos groundNode"
| porPositivo: "e \<in> set elementos \<Longrightarrow> nodoPositivo e \<in> alcanzables elementos groundNode \<Longrightarrow>
     nodoNegativo e \<in> alcanzables elementos groundNode"
| porNegativo: "e \<in> set elementos \<Longrightarrow> nodoNegativo e \<in> alcanzables elementos groundNode \<Longrightarrow>
     nodoPositivo e \<in> alcanzables elementos groundNode"

subsection \<open>Example circuits\<close>

text \<open>The resistor divider of the specification: V1 of 10 V from node 1 to node 0, R1 of
  1000 Ohm from node 1 to node 2, R2 of 1000 Ohm from node 2 to node 0; three nodes, ground
  node 0, frequency 0. Below it, the matrices of its analysis.\<close>

definition fuenteV1 :: elemento where
  "fuenteV1 = \<lparr>tipo = TipoV, nombre = ''V1'', nodoPositivo = 1, nodoNegativo = 0, valor = 10\<rparr>"

definition divisor :: "elemento list" where
  "divisor =
     [fuenteV1,
      \<lparr>tipo = TipoR, nombre = ''R1'', nodoPositivo = 1, nodoNegativo = 2, valor = 1000\<rparr>,
      \<lparr>tipo = TipoR, nombre = ''R2'', nodoPositivo = 2, nodoNegativo = 0, valor = 1000\<rparr>]"

definition divisorG :: matriz where
  "divisorG = \<lparr>filas = 2, columnas = 2,
                datos = [[1 / 1000, - (1 / 1000)], [- (1 / 1000), 1 / 500]]\<rparr>"

definition divisorB :: matriz where
  "divisorB = \<lparr>filas = 2, columnas = 1, datos = [[1], [0]]\<rparr>"

definition divisorC :: matriz where
  "divisorC = \<lparr>filas = 1, columnas = 2, datos = [[1, 0]]\<rparr>"

definition divisorD :: matriz where
  "divisorD = \<lparr>filas = 1, columnas = 1, datos = [[0]]\<rparr>"

definition divisorA :: matriz where
  "divisorA = \<lparr>filas = 3, columnas = 3,
                datos = [[1 / 1000, - (1 / 1000), 1], [- (1 / 1000), 1 / 500, 0], [1, 0, 0]]\<rparr>"

definition divisorI :: matriz where
  "divisorI = \<lparr>filas = 2, columnas = 1, datos = [[0], [0]]\<rparr>"

definition divisorE :: matriz where
  "divisorE = \<lparr>filas = 1, columnas = 1, datos = [[10]]\<rparr>"

definition divisorZ :: matriz where
  "divisorZ = \<lparr>filas = 3, columnas = 1, datos = [[0], [0], [10]]\<rparr>"

definition divisorX :: matriz where
  "divisorX = \<lparr>filas = 3, columnas = 1, datos = [[10], [5], [- (1 / 200)]]\<rparr>"

text \<open>Passive elements with values the validator would reject: a resistor of -1000 Ohm, a
  capacitor of 0 F and an inductor of -1 H, each between node 1 and the ground node 0.\<close>

definition resistorNegativo :: elemento where
  "resistorNegativo =
     \<lparr>tipo = TipoR, nombre = ''R1'', nodoPositivo = 1, nodoNegativo = 0, valor = - 1000\<rparr>"

definition capacitorCero :: elemento where
  "capacitorCero =
     \<lparr>tipo = TipoC, nombre = ''C1'', nodoPositivo = 1, nodoNegativo = 0, valor = 0\<rparr>"

definition inductorNegativo :: elemento where
  "inductorNegativo =
     \<lparr>tipo = TipoL, nombre = ''L1'', nodoPositivo = 1, nodoNegativo = 0, valor = - 1\<rparr>"

definition resistorCero :: elemento where
  "resistorCero =
     \<lparr>tipo = TipoR, nombre = ''R0'', nodoPositivo = 1, nodoNegativo = 0, valor = 0\<rparr>"

text \<open>A resistor of 50 Ohm whose positive terminal, node 5, is not a node of a circuit
  with fewer than six nodes.\<close>

definition resistorFuera :: elemento where
  "resistorFuera =
     \<lparr>tipo = TipoR, nombre = ''R9'', nodoPositivo = 5, nodoNegativo = 0, valor = 50\<rparr>"

text \<open>A circuit without a voltage source: a current source of 1 A and a resistor of
  1000 Ohm, both from node 1 to the ground node 0.\<close>

definition soloCorriente :: "elemento list" where
  "soloCorriente =
     [\<lparr>tipo = TipoI, nombre = ''I1'', nodoPositivo = 1, nodoNegativo = 0, valor = 1\<rparr>,
      \<lparr>tipo = TipoR, nombre = ''R1'', nodoPositivo = 1, nodoNegativo = 0, valor = 1000\<rparr>]"

text \<open>A circuit with a floating island: V1 of 10 V and Ra of 1000 Ohm from node 1 to the
  ground node 0, and three resistors of 0.003, 0.007 and 0.011 Ohm in a triangle on the
  nodes 2, 3 and 4, which no element connects to the nodes 0 and 1. Five nodes, ground node
  0, frequency 0. Below it, the blocks \<open>G\<close> and \<open>A\<close> of its analysis in doubles: the
  entries are the doubles themselves, written as fractions (the first one is the double of
  0.001).\<close>

definition isla :: "elemento list" where
  "isla =
     [fuenteV1,
      \<lparr>tipo = TipoR, nombre = ''Ra'', nodoPositivo = 1, nodoNegativo = 0, valor = 1000\<rparr>,
      \<lparr>tipo = TipoR, nombre = ''R1'', nodoPositivo = 2, nodoNegativo = 3, valor = 3 / 1000\<rparr>,
      \<lparr>tipo = TipoR, nombre = ''R2'', nodoPositivo = 3, nodoNegativo = 4, valor = 7 / 1000\<rparr>,
      \<lparr>tipo = TipoR, nombre = ''R3'', nodoPositivo = 4, nodoNegativo = 2, valor = 11 / 1000\<rparr>]"

definition islaG :: matriz where
  "islaG = \<lparr>filas = 4, columnas = 4,
             datos =
                  [[1152921504606847 / 1152921504606846976, 0, 0, 0],
                   [0, 1865837913801697 / 4398046511104, - (5864062014805333 / 17592186044416),
                    - (6397158561605819 / 70368744177664)],
                   [0, - (5864062014805333 / 17592186044416), 523576965607619 / 1099511627776,
                    - (5026338869833143 / 35184372088832)],
                   [0, - (6397158561605819 / 70368744177664),
                    - (5026338869833143 / 35184372088832), 2056229537659013 / 8796093022208]]\<rparr>"

definition islaA :: matriz where
  "islaA = \<lparr>filas = 5, columnas = 5,
             datos =
                  [[1152921504606847 / 1152921504606846976, 0, 0, 0, 1],
                   [0, 1865837913801697 / 4398046511104, - (5864062014805333 / 17592186044416),
                    - (6397158561605819 / 70368744177664), 0],
                   [0, - (5864062014805333 / 17592186044416), 523576965607619 / 1099511627776,
                    - (5026338869833143 / 35184372088832), 0],
                   [0, - (6397158561605819 / 70368744177664),
                    - (5026338869833143 / 35184372088832), 2056229537659013 / 8796093022208, 0],
                   [1, 0, 0, 0, 0]]\<rparr>"

subsection \<open>Notions for the proofs\<close>

text \<open>\<open>forma M r c\<close>: the matrix has size \<open>r x c\<close> and its rows agree with it.
  \<open>columna M l\<close>: the column \<open>l\<close>. \<open>indicador\<close>: the vector over the rows of \<open>G\<close> that is
  \<open>1\<close> at the nodes not reachable from the ground node and \<open>0\<close> at the others.
  \<open>compatible g N v e\<close>: the indices of the terminals of \<open>e\<close> are below \<open>N\<close>, and \<open>v\<close> takes
  the same value at both, the value \<open>0\<close> where the other terminal is the ground node.\<close>

definition forma :: "matriz \<Rightarrow> nat \<Rightarrow> nat \<Rightarrow> bool" where
  "forma M r c =
     (filas M = r \<and> columnas M = c \<and> length (datos M) = r \<and>
      (\<forall>row\<in>set (datos M). length row = c))"

definition columna :: "matriz \<Rightarrow> nat \<Rightarrow> complex list" where
  "columna M l = map (\<lambda>r. r ! l) (datos M)"

definition compatible :: "int \<Rightarrow> nat \<Rightarrow> complex list \<Rightarrow> elemento \<Rightarrow> bool" where
  "compatible g N v e =
     (let i = nodoAIndice (nodoPositivo e) g; j = nodoAIndice (nodoNegativo e) g in
      i < int N \<and> j < int N \<and>
      (0 \<le> i \<and> 0 \<le> j \<longrightarrow> v ! nat i = v ! nat j) \<and>
      (0 \<le> i \<and> j < 0 \<longrightarrow> v ! nat i = 0) \<and>
      (i < 0 \<and> 0 \<le> j \<longrightarrow> v ! nat j = 0))"

definition compatibleV :: "int \<Rightarrow> nat \<Rightarrow> complex list \<Rightarrow> elemento \<Rightarrow> bool" where
  "compatibleV g N v e =
     (compatible g N v e \<and>
      (0 \<le> nodoAIndice (nodoPositivo e) g \<and> 0 \<le> nodoAIndice (nodoNegativo e) g \<longrightarrow>
         nodoAIndice (nodoPositivo e) g \<noteq> nodoAIndice (nodoNegativo e) g))"

definition indicador :: "elemento list \<Rightarrow> int \<Rightarrow> nat \<Rightarrow> complex list" where
  "indicador elementos g N =
     map (\<lambda>k. if nodoReal (int k) g \<in> alcanzables elementos g then 0 else 1) [0..<N]"

section \<open>Properties\<close>

lemma luego_Inl [simp]: "luego (Inl e) k = Inl e"
  by (simp add: luego_def)

lemma luego_Inr [simp]: "luego (Inr a) k = k a"
  by (simp add: luego_def)

lemma luego_eq_Inr: "luego m k = Inr b \<longleftrightarrow> (\<exists>a. m = Inr a \<and> k a = Inr b)"
  by (cases m) simp_all

subsection \<open>The node index\<close>

text \<open>C9. \<^verbatim>\<open>nodoAIndice\<close> sends the ground node to \<open>-1\<close>, keeps the number of a node below
  the ground node and lowers by one the number of a node above it; it is injective on the
  nodes other than the ground node, and the expression \<^verbatim>\<open>(i < groundNode) ? i : i + 1\<close> of
  \<^verbatim>\<open>analizarCircuito\<close> inverts it there.\<close>

theorem nodoAIndice_inverso:
  "nodoAIndice g g = - 1 \<and>
   (n < g \<longrightarrow> nodoAIndice n g = n) \<and>
   (g < n \<longrightarrow> nodoAIndice n g = n - 1) \<and>
   inj_on (\<lambda>k. nodoAIndice k g) {k. k \<noteq> g} \<and>
   (n \<noteq> g \<longrightarrow> nodoReal (nodoAIndice n g) g = n)"
proof -
  have inj: "inj_on (\<lambda>k. nodoAIndice k g) {k. k \<noteq> g}"
  proof (rule inj_onI)
    fix a b
    assume "a \<in> {k. k \<noteq> g}" "b \<in> {k. k \<noteq> g}" "nodoAIndice a g = nodoAIndice b g"
    then show "a = b"
      by (simp add: nodoAIndice_def split: if_splits)
  qed
  show ?thesis
    using inj by (simp add: nodoAIndice_def nodoReal_def)
qed

theorem nodoAIndice_inverso_witness:
  "nodoAIndice 2 2 = - 1 \<and> nodoAIndice 0 2 = 0 \<and> nodoAIndice 3 2 = 2 \<and>
   nodoReal (nodoAIndice 0 2) 2 = 0 \<and> nodoReal (nodoAIndice 3 2) 2 = 3 \<and>
   inj_on (\<lambda>k. nodoAIndice k 2) {k. k \<noteq> 2}"
  using nodoAIndice_inverso[of 2 0] nodoAIndice_inverso[of 2 3] by (simp add: nodoReal_def)

subsection \<open>The conductance of a capacitor and of an inductor\<close>

text \<open>C3. The conductance stamped for a capacitor is \<open>0\<close> at frequency \<open>0\<close> and
  \<open>j 2 \<pi> f valor\<close> at a frequency \<open>f > 0\<close>; for an inductor at \<open>f > 0\<close> it is
  \<open>- j / (2 \<pi> f valor)\<close>. In both cases at \<open>f > 0\<close> the real part is zero. (For an
  inductor of value \<open>0\<close> the code and the formula are the same division by zero.)\<close>

theorem conductancia_reactiva:
  "(tipo e = TipoC \<longrightarrow>
      conductancia e 0 = Inr 0 \<and>
      (0 < f \<longrightarrow>
         conductancia e f = Inr (\<i> * complex_of_real (2 * pi * f * valor e)) \<and>
         Re (\<i> * complex_of_real (2 * pi * f * valor e)) = 0)) \<and>
   (tipo e = TipoL \<and> 0 < f \<longrightarrow>
      conductancia e f = Inr (- \<i> / complex_of_real (2 * pi * f * valor e)) \<and>
      Re (- \<i> / complex_of_real (2 * pi * f * valor e)) = 0)"
proof -
  have c: "\<i> * complex_of_real x = Complex 0 x" for x
    by (simp add: complex_eq_iff)
  have l: "- \<i> / complex_of_real x = Complex 0 (- 1 / x)" for x
    by (simp add: complex_eq_iff Re_divide Im_divide power2_eq_square)
  show ?thesis
    unfolding c l by (simp add: conductancia_def)
qed

theorem conductancia_reactiva_witness:
  "conductancia \<lparr>tipo = TipoC, nombre = ''C1'', nodoPositivo = 1, nodoNegativo = 0,
                   valor = 1 / 1000\<rparr> 0 = Inr 0 \<and>
   conductancia \<lparr>tipo = TipoC, nombre = ''C1'', nodoPositivo = 1, nodoNegativo = 0,
                   valor = 1 / 1000\<rparr> 50 = Inr (\<i> * complex_of_real (2 * pi * 50 * (1 / 1000))) \<and>
   conductancia \<lparr>tipo = TipoL, nombre = ''L1'', nodoPositivo = 1, nodoNegativo = 0,
                   valor = 1 / 10\<rparr> 50 = Inr (- \<i> / complex_of_real (2 * pi * 50 * (1 / 10)))"
  using conductancia_reactiva[of "\<lparr>tipo = TipoC, nombre = ''C1'', nodoPositivo = 1,
          nodoNegativo = 0, valor = 1 / 1000\<rparr>" 50]
        conductancia_reactiva[of "\<lparr>tipo = TipoL, nombre = ''L1'', nodoPositivo = 1,
          nodoNegativo = 0, valor = 1 / 10\<rparr>" 50]
  by simp

subsection \<open>The resistor divider\<close>

lemma divisor_G: "construirMatrizG divisor 3 0 0 = Inr divisorG"
  by (simp add: divisorG_def construirMatrizG_def divisor_def fuenteV1_def esPasivo_def
      mathZeros_def estampaG_def conductancia_def nodoAIndice_def sumarElemento_def poner_def
      obtener_def Let_def numeral_2_eq_2)

lemma divisor_B: "construirMatrizB divisor 3 0 = Inr divisorB"
  by (simp add: divisorB_def construirMatrizB_def divisor_def fuenteV1_def esFuenteV_def
      mathZeros_def nodoAIndice_def establecerElemento_def poner_def Let_def numeral_2_eq_2)

lemma divisor_C: "construirMatrizC divisorB = Inr divisorC"
  by (simp add: divisorB_def divisorC_def construirMatrizC_def mathTranspose_def)

lemma divisor_D: "construirMatrizD (Suc 0) = Inr divisorD"
  by (simp add: divisorD_def construirMatrizD_def mathZeros_def)

lemma divisor_A: "ensamblarMatrizA divisorG divisorB divisorC divisorD = Inr divisorA"
  by (simp add: divisorG_def divisorB_def divisorC_def divisorD_def divisorA_def
      ensamblarMatrizA_def mathConcat1_def mathConcat0_def)

lemma divisor_I: "construirVectorI divisor 3 0 = Inr divisorI"
  by (simp add: divisorI_def construirVectorI_def divisor_def fuenteV1_def esFuenteI_def
      mathZeros_def numeral_2_eq_2)

lemma divisor_E: "construirVectorE divisor = Inr divisorE"
  by (simp add: divisorE_def construirVectorE_def divisor_def fuenteV1_def esFuenteV_def
      mathZeros_def poner_def Let_def)

lemma divisor_Z: "ensamblarVectorZ divisorI divisorE = Inr divisorZ"
  by (simp add: divisorI_def divisorE_def divisorZ_def ensamblarVectorZ_def mathConcat0_def)

lemma divisor_det: "mathDet divisorA = Inr (- (1 / 500))"
  by (simp add: divisorA_def mathDet_def numeral_3_eq_3 reducir_def quitar_def)

lemma divisor_X: "resolverSistema divisorA divisorZ = Inr divisorX"
proof -
  have "mathLusolve divisorA divisorZ = Inr divisorX"
    by (simp add: divisorA_def divisorZ_def divisorX_def mathLusolve_def numeral_3_eq_3
        reducir_def quitar_def escalar_def)
  then show ?thesis
    by (simp add: resolverSistema_def intentarResolver_def mathSize_def longitud_def
        divisor_det norm_divide)
qed

lemma divisor_analisis:
  "intentarAnalizar divisor 3 0 0 = Inr
     \<lparr>exito = True, error = None,
      voltajes = extraerVoltajes 2 0 divisorX,
      corrientes = extraerCorrientes 2 divisorX 0 [fuenteV1] Map.empty,
      matrices = Some \<lparr>matA = divisorA, matX = divisorX, matZ = divisorZ, matG = divisorG,
                       matB = divisorB, matC = divisorC, matD = divisorD\<rparr>,
      info = Some \<lparr>numNodos = 3, numNodosSinTierra = 2, numFuentesVoltaje = 1,
                   numFuentesCorriente = 0, numResistores = 2, numCapacitores = 0,
                   numInductores = 0, frecuencia = 0, tipoAnalisis = ''DC'',
                   determinante = - (1 / 500)\<rparr>\<rparr>"
proof -
  have fv: "filter esFuenteV divisor = [fuenteV1]"
    by (simp add: divisor_def fuenteV1_def esFuenteV_def)
  have n: "nat (3 - 1) = 2" by simp
  have cuenta: "length (filter esFuenteI divisor) = 0"
    "length (filter (\<lambda>e. tipo e = TipoR) divisor) = 2"
    "length (filter (\<lambda>e. tipo e = TipoC) divisor) = 0"
    "length (filter (\<lambda>e. tipo e = TipoL) divisor) = 0"
    by (simp_all add: divisor_def fuenteV1_def esFuenteI_def)
  have noVacio: "divisor \<noteq> []" by (simp add: divisor_def)
  show ?thesis
    unfolding intentarAnalizar_def Let_def fv n cuenta
    by (simp add: noVacio divisor_G divisor_B divisor_C divisor_D divisor_A divisor_I divisor_E
        divisor_Z divisor_X divisor_det)
qed

lemma divisor_voltajes:
  "extraerVoltajes 2 0 divisorX 0 = Some 0"
  "extraerVoltajes 2 0 divisorX 1 = Some 10"
  "extraerVoltajes 2 0 divisorX 2 = Some 5"
  by (simp_all add: extraerVoltajes_def divisorX_def nodoReal_def obtener_def numeral_2_eq_2)

lemma divisor_corrientes:
  "extraerCorrientes 2 divisorX 0 [fuenteV1] Map.empty ''V1'' = Some (- (1 / 200))"
  by (simp add: fuenteV1_def divisorX_def obtener_def)

text \<open>C1. For the resistor divider (nodes 0, 1, 2, ground node 0, V1 = 10 between 1 and 0,
  R1 = 1000 between 1 and 2, R2 = 1000 between 2 and 0) \<^verbatim>\<open>analizarCircuito\<close> succeeds with
  voltage 10 at node 1, voltage 5 at node 2 and current -0.005 through V1.\<close>

theorem divisor_resuelto:
  "exito (analizarCircuito divisor 3 0 0) \<and>
   voltajes (analizarCircuito divisor 3 0 0) 1 = Some 10 \<and>
   voltajes (analizarCircuito divisor 3 0 0) 2 = Some 5 \<and>
   corrientes (analizarCircuito divisor 3 0 0) ''V1'' = Some (- (5 / 1000))"
  by (simp add: analizarCircuito_def divisor_analisis divisor_voltajes divisor_corrientes
      del: extraerCorrientes.simps)

subsection \<open>resolverSistema\<close>

text \<open>The tests of the sizes and of the length of the solution are dead for the matrices
  of math.js: whatever \<open>A\<close> and \<open>z\<close>, \<^verbatim>\<open>resolverSistema\<close> raises none of its own errors
  'Matriz A no es cuadrada', 'Dimensiones incompatibles', 'No se pudo obtener solucion'.
  What a matrix that is not square or a vector of the wrong height meet is the argument
  check of \<^verbatim>\<open>math.det\<close> or of \<^verbatim>\<open>math.lusolve\<close>, after the test of the determinant.\<close>

lemma resolverSistema_pruebas_muertas:
  "resolverSistema A z \<noteq> Inl (ErrorAlResolver (NoCuadrada r c))"
  "resolverSistema A z \<noteq> Inl (ErrorAlResolver (DimensionesIncompatibles r c r' c'))"
  "resolverSistema A z \<noteq> Inl (ErrorAlResolver SinSolucion)"
  by (auto simp add: resolverSistema_def intentarResolver_def mathSize_def longitud_def
      luego_def mathDet_def mathLusolve_def split: sum.splits if_splits option.splits)

lemma resolverSistema_singular:
  "mathDet A = Inr d \<Longrightarrow> cmod d < 1 / 10 ^ 10 \<Longrightarrow>
     resolverSistema A z = Inl (ErrorAlResolver MatrizSingularDetectada)"
  by (simp add: resolverSistema_def intentarResolver_def mathSize_def)

text \<open>C4. For the matrices of math.js the two tests of the sizes do not work. The matrix
  \<open>[[1, 2], [2, 4]]\<close> is square and singular (its determinant \<open>1 * 4 - 2 * 2\<close> is \<open>0\<close>, in
  doubles as well), the vector \<open>[[1], [2], [3]]\<close> has three rows: the specification asks
  for the error of the dimensions here, and \<^verbatim>\<open>resolverSistema\<close> raises the singular-matrix
  error, since the two tests of the sizes compare \<^verbatim>\<open>undefined\<close> with \<^verbatim>\<open>undefined\<close>. For a matrix of size \<open>2 x 3\<close> the error raised is
  the one of \<^verbatim>\<open>math.det\<close> ('Matrix must be square'), and for the identity of size 2 with
  the vector of three rows the one of \<^verbatim>\<open>math.lusolve\<close> ('Dimension mismatch'), each thrown
  again by the \<^verbatim>\<open>catch\<close>. (The singular-matrix error itself depends on the determinant that
  \<^verbatim>\<open>math.det\<close> computes, \<open>resolverSistema_singular\<close>; on doubles that determinant is not
  always near zero for a singular matrix, \<open>singular_entera_en_dobles\<close> below.)\<close>

theorem resolverSistema_sin_prueba_de_dimensiones:
  "resolverSistema \<lparr>filas = 2, columnas = 2, datos = [[1, 2], [2, 4]]\<rparr>
                   \<lparr>filas = 3, columnas = 1, datos = [[1], [2], [3]]\<rparr>
     = Inl (ErrorAlResolver MatrizSingularDetectada) \<and>
   resolverSistema \<lparr>filas = 2, columnas = 3, datos = [[1, 0, 0], [0, 1, 0]]\<rparr>
                   \<lparr>filas = 2, columnas = 1, datos = [[1], [2]]\<rparr>
     = Inl (ErrorAlResolver (Mathjs DetNoCuadrada)) \<and>
   resolverSistema \<lparr>filas = 2, columnas = 2, datos = [[1, 0], [0, 1]]\<rparr>
                   \<lparr>filas = 3, columnas = 1, datos = [[1], [2], [3]]\<rparr>
     = Inl (ErrorAlResolver (Mathjs LusolveDimensiones))"
proof -
  have d: "detElim 2 [[1, 2], [2, 4]] = 0" "detElim 2 [[1, 0], [0, 1]] = 1"
    by (simp_all add: numeral_2_eq_2 reducir_def quitar_def)
  show ?thesis
    by (simp add: resolverSistema_def intentarResolver_def mathSize_def longitud_def
        mathDet_def mathLusolve_def d)
qed

subsection \<open>analizarCircuito\<close>

lemma intentarAnalizar_Inr:
  assumes "intentarAnalizar els n g f = Inr r"
  shows "els \<noteq> [] \<and> 2 \<le> n \<and> 0 \<le> g \<and> g < n \<and> 0 \<le> f \<and>
    (\<exists>G B C D A i e z x d.
       construirMatrizG els n g f = Inr G \<and>
       construirMatrizB els n g = Inr B \<and>
       construirMatrizC B = Inr C \<and>
       construirMatrizD (length (filter esFuenteV els)) = Inr D \<and>
       ensamblarMatrizA G B C D = Inr A \<and>
       construirVectorI els n g = Inr i \<and>
       construirVectorE els = Inr e \<and>
       ensamblarVectorZ i e = Inr z \<and>
       resolverSistema A z = Inr x \<and>
       mathDet A = Inr d \<and>
       exito r \<and> error r = None \<and>
       voltajes r = extraerVoltajes (nat (n - 1)) g x \<and>
       corrientes r = extraerCorrientes (nat (n - 1)) x 0 (filter esFuenteV els) Map.empty \<and>
       matrices r = Some \<lparr>matA = A, matX = x, matZ = z, matG = G, matB = B, matC = C, matD = D\<rparr>)"
  using assms unfolding intentarAnalizar_def Let_def
  by (auto simp add: luego_eq_Inr split: if_splits)

text \<open>C8. Whenever \<^verbatim>\<open>analizarCircuito\<close> succeeds, the voltage it reports for the ground node
  is exactly \<open>0\<close>: it is assigned after the loop that reads the solution.\<close>

theorem tierra_en_cero:
  "exito (analizarCircuito els n g f) \<Longrightarrow> voltajes (analizarCircuito els n g f) g = Some 0"
proof -
  assume ok: "exito (analizarCircuito els n g f)"
  show ?thesis
  proof (cases "intentarAnalizar els n g f")
    case (Inl e)
    with ok show ?thesis by (simp add: analizarCircuito_def fallo_def)
  next
    case (Inr r)
    from intentarAnalizar_Inr[OF Inr] obtain x where
      "voltajes r = extraerVoltajes (nat (n - 1)) g x" by blast
    with Inr show ?thesis by (simp add: analizarCircuito_def extraerVoltajes_def)
  qed
qed

theorem tierra_en_cero_witness:
  "exito (analizarCircuito divisor 3 0 0) \<and> voltajes (analizarCircuito divisor 3 0 0) 0 = Some 0"
proof -
  have ok: "exito (analizarCircuito divisor 3 0 0)"
    by (simp add: analizarCircuito_def divisor_analisis)
  from tierra_en_cero[OF ok] ok show ?thesis by simp
qed

text \<open>C7. \<^verbatim>\<open>analizarCircuito\<close> always returns an object (the connectivity loop terminates,
  and every error of its \<^verbatim>\<open>try\<close> block is caught). An error raised in the \<^verbatim>\<open>try\<close> block
  is returned in the object of the \<^verbatim>\<open>catch\<close>: \<^verbatim>\<open>exito\<close> false, the error, empty \<^verbatim>\<open>voltajes\<close>
  and \<^verbatim>\<open>corrientes\<close>, \<^verbatim>\<open>matrices\<close> null; a call that does not succeed returns such an
  object. When the call succeeds, the validation passed and every stage of the assembly and
  the solution returned without error: no stage that raised leaves a result behind.\<close>

theorem analizarCircuito_sin_excepcion:
  "(intentarAnalizar els n g f = Inl err \<longrightarrow>
      analizarCircuito els n g f =
        \<lparr>exito = False, error = Some err, voltajes = Map.empty, corrientes = Map.empty,
         matrices = None, info = None\<rparr>) \<and>
   (\<not> exito (analizarCircuito els n g f) \<longrightarrow>
      (\<exists>e. intentarAnalizar els n g f = Inl e \<and>
           analizarCircuito els n g f =
             \<lparr>exito = False, error = Some e, voltajes = Map.empty, corrientes = Map.empty,
              matrices = None, info = None\<rparr>)) \<and>
   (exito (analizarCircuito els n g f) \<longrightarrow>
      els \<noteq> [] \<and> 2 \<le> n \<and> 0 \<le> g \<and> g < n \<and> 0 \<le> f \<and>
      (\<exists>G B C D A i e z x.
         construirMatrizG els n g f = Inr G \<and>
         construirMatrizB els n g = Inr B \<and>
         construirMatrizC B = Inr C \<and>
         construirMatrizD (length (filter esFuenteV els)) = Inr D \<and>
         ensamblarMatrizA G B C D = Inr A \<and>
         construirVectorI els n g = Inr i \<and>
         construirVectorE els = Inr e \<and>
         ensamblarVectorZ i e = Inr z \<and>
         resolverSistema A z = Inr x \<and>
         error (analizarCircuito els n g f) = None \<and>
         matrices (analizarCircuito els n g f) =
           Some \<lparr>matA = A, matX = x, matZ = z, matG = G, matB = B, matC = C, matD = D\<rparr>))"
proof (cases "intentarAnalizar els n g f")
  case (Inl e)
  then show ?thesis by (simp add: analizarCircuito_def fallo_def)
next
  case (Inr r)
  from intentarAnalizar_Inr[OF Inr] Inr show ?thesis
    by (simp add: analizarCircuito_def) blast
qed

theorem analizarCircuito_sin_excepcion_witness:
  "analizarCircuito [] 3 0 0 =
     \<lparr>exito = False, error = Some SinElementos, voltajes = Map.empty, corrientes = Map.empty,
      matrices = None, info = None\<rparr> \<and>
   exito (analizarCircuito divisor 3 0 0) \<and>
   resolverSistema divisorA divisorZ = Inr divisorX \<and>
   matrices (analizarCircuito divisor 3 0 0) =
     Some \<lparr>matA = divisorA, matX = divisorX, matZ = divisorZ, matG = divisorG,
           matB = divisorB, matC = divisorC, matD = divisorD\<rparr>"
proof -
  have a: "\<not> exito (analizarCircuito [] 3 0 0)"
    by (simp add: analizarCircuito_def intentarAnalizar_def fallo_def)
  have b: "exito (analizarCircuito divisor 3 0 0)"
    by (simp add: analizarCircuito_def divisor_analisis)
  have c: "intentarAnalizar [] 3 0 0 = Inl SinElementos"
    by (simp add: intentarAnalizar_def)
  from analizarCircuito_sin_excepcion[of "[]" 3 0 0] a c
  have 1: "analizarCircuito [] 3 0 0 =
     \<lparr>exito = False, error = Some SinElementos, voltajes = Map.empty, corrientes = Map.empty,
      matrices = None, info = None\<rparr>" by auto
  from analizarCircuito_sin_excepcion[of divisor 3 0 0] b
  obtain G B C D A i e z x where s:
    "construirMatrizG divisor 3 0 0 = Inr G" "construirMatrizB divisor 3 0 = Inr B"
    "construirMatrizC B = Inr C" "construirMatrizD (length (filter esFuenteV divisor)) = Inr D"
    "ensamblarMatrizA G B C D = Inr A" "construirVectorI divisor 3 0 = Inr i"
    "construirVectorE divisor = Inr e" "ensamblarVectorZ i e = Inr z"
    "resolverSistema A z = Inr x"
    "matrices (analizarCircuito divisor 3 0 0) =
       Some \<lparr>matA = A, matX = x, matZ = z, matG = G, matB = B, matC = C, matD = D\<rparr>"
    by blast
  have fv: "length (filter esFuenteV divisor) = Suc 0"
    by (simp add: divisor_def fuenteV1_def esFuenteV_def)
  from s have "G = divisorG" "B = divisorB" "i = divisorI" "e = divisorE"
    by (simp_all add: divisor_G divisor_B divisor_I divisor_E)
  with s fv have "C = divisorC" "D = divisorD" "z = divisorZ"
    by (simp_all add: divisor_C divisor_D divisor_Z)
  with s \<open>G = divisorG\<close> \<open>B = divisorB\<close> have "A = divisorA" by (simp add: divisor_A)
  with s \<open>z = divisorZ\<close> have "x = divisorX" by (simp add: divisor_X)
  with s \<open>A = divisorA\<close> \<open>z = divisorZ\<close> \<open>G = divisorG\<close> \<open>B = divisorB\<close> \<open>C = divisorC\<close> \<open>D = divisorD\<close>
  have 2: "resolverSistema divisorA divisorZ = Inr divisorX"
    "matrices (analizarCircuito divisor 3 0 0) =
     Some \<lparr>matA = divisorA, matX = divisorX, matZ = divisorZ, matG = divisorG,
           matB = divisorB, matC = divisorC, matD = divisorD\<rparr>" by simp_all
  from 1 2 b show ?thesis by simp
qed

subsection \<open>The conductance matrix against the stamping rule\<close>

lemma conductancia_admitancia:
  "esPasivo e \<Longrightarrow> conductancia e f = Inr y \<Longrightarrow> y = admitancia e f"
proof -
  have c: "\<i> * complex_of_real x = Complex 0 x" for x
    by (simp add: complex_eq_iff)
  have l: "- \<i> / complex_of_real x = Complex 0 (- 1 / x)" for x
    by (simp add: complex_eq_iff Re_divide Im_divide power2_eq_square)
  show "esPasivo e \<Longrightarrow> conductancia e f = Inr y \<Longrightarrow> y = admitancia e f"
    unfolding admitancia_def c l
    by (auto simp add: conductancia_def esPasivo_def split: if_splits)
qed

lemma sumarElemento_agregar:
  "sumarElemento G i j y = Inr G' \<Longrightarrow> G' = agregar G i j y"
  by (auto simp add: sumarElemento_def agregar_def split: if_splits)

lemma agregar_fuera: "i < 0 \<Longrightarrow> agregar G i j y = G" "j < 0 \<Longrightarrow> agregar G i j y = G"
  by (auto simp add: agregar_def)

lemma diagonal_agregar:
  "(if 0 \<le> i then sumarElemento G i i y else Inr G) = Inr G' \<Longrightarrow> G' = agregar G i i y"
  by (auto simp add: sumarElemento_agregar agregar_fuera split: if_splits)

lemma estampaG_sello:
  assumes "esPasivo e" and "estampaG g f G e = Inr G'"
  shows "G' = selloDeReferencia g f e G"
proof -
  from assms(2) obtain y G1 G2 where
    y: "conductancia e f = Inr y" and
    g1: "(if 0 \<le> nodoAIndice (nodoPositivo e) g
          then sumarElemento G (nodoAIndice (nodoPositivo e) g) (nodoAIndice (nodoPositivo e) g) y
          else Inr G) = Inr G1" and
    g2: "(if 0 \<le> nodoAIndice (nodoNegativo e) g
          then sumarElemento G1 (nodoAIndice (nodoNegativo e) g) (nodoAIndice (nodoNegativo e) g) y
          else Inr G1) = Inr G2" and
    g4: "(if 0 \<le> nodoAIndice (nodoPositivo e) g \<and> 0 \<le> nodoAIndice (nodoNegativo e) g
          then luego (sumarElemento G2 (nodoAIndice (nodoPositivo e) g) (nodoAIndice (nodoNegativo e) g) (- y))
                 (\<lambda>G3. sumarElemento G3 (nodoAIndice (nodoNegativo e) g) (nodoAIndice (nodoPositivo e) g) (- y))
          else Inr G2) = Inr G'"
    unfolding estampaG_def Let_def luego_eq_Inr by blast
  define i where "i = nodoAIndice (nodoPositivo e) g"
  define j where "j = nodoAIndice (nodoNegativo e) g"
  have y': "y = admitancia e f" using conductancia_admitancia[OF assms(1) y] .
  have G1: "G1 = agregar G i i y" using diagonal_agregar[OF g1] by (simp add: i_def)
  have G2: "G2 = agregar G1 j j y" using diagonal_agregar[OF g2] by (simp add: j_def)
  have G4: "G' = agregar (agregar G2 i j (- y)) j i (- y)"
  proof (cases "0 \<le> i \<and> 0 \<le> j")
    case True
    with g4 obtain G3 where "sumarElemento G2 i j (- y) = Inr G3" "sumarElemento G3 j i (- y) = Inr G'"
      unfolding i_def j_def by (auto simp add: luego_eq_Inr)
    then show ?thesis by (auto dest: sumarElemento_agregar)
  next
    case False
    with g4 have "G' = G2" unfolding i_def j_def by auto
    moreover from False have "i < 0 \<or> j < 0" by auto
    ultimately show ?thesis by (auto simp add: agregar_fuera)
  qed
  have ni: "NodeIndex g (nodoPositivo e) = (if nodoPositivo e = g then None else Some i)"
    by (simp add: i_def nodoAIndice_def NodeIndex_def)
  have nj: "NodeIndex g (nodoNegativo e) = (if nodoNegativo e = g then None else Some j)"
    by (simp add: j_def nodoAIndice_def NodeIndex_def)
  have ineg: "nodoPositivo e = g \<Longrightarrow> i < 0"
    by (simp add: i_def nodoAIndice_def)
  have jneg: "nodoNegativo e = g \<Longrightarrow> j < 0"
    by (simp add: j_def nodoAIndice_def)
  show ?thesis
    unfolding selloDeReferencia_def Let_def ni nj G4 G2 G1 y'
    using ineg jneg by (simp add: agregar_fuera)
qed

lemma estamparG_sellos:
  "list_all esPasivo xs \<Longrightarrow> estamparG g f G xs = Inr G' \<Longrightarrow>
     G' = fold (selloDeReferencia g f) xs G"
proof (induction xs arbitrary: G)
  case Nil
  then show ?case by simp
next
  case (Cons e xs)
  from Cons.prems(2) obtain G1 where
    a: "estampaG g f G e = Inr G1" and b: "estamparG g f G1 xs = Inr G'"
    by (auto simp add: luego_eq_Inr)
  from Cons.prems(1) have p: "esPasivo e" "list_all esPasivo xs" by simp_all
  from estampaG_sello[OF p(1) a] Cons.IH[OF p(2) b] show ?case by simp
qed

lemma fold_filtrado:
  "fold (\<lambda>e G. if P e then h e G else G) xs G0 = fold h (filter P xs) G0"
  by (induction xs arbitrary: G0) simp_all

subsection \<open>Circuits without a voltage source\<close>

lemma sin_fuentes_B:
  "filter esFuenteV els = [] \<Longrightarrow> construirMatrizB els n g = mathZeros (n - 1) 0"
  by (simp add: construirMatrizB_def)

lemma sin_fuentes_E:
  "filter esFuenteV els = [] \<Longrightarrow>
     construirVectorE els = Inr \<lparr>filas = 0, columnas = 1, datos = []\<rparr>"
  by (simp add: construirVectorE_def mathZeros_def)

lemma sin_fuentes_C:
  "filter esFuenteV els = [] \<Longrightarrow> construirMatrizB els n g = Inr B \<Longrightarrow>
     construirMatrizC B = Inl (Mathjs (TransponerSinColumnas (nat (n - 1))))"
  by (auto simp add: sin_fuentes_B mathZeros_def construirMatrizC_def mathTranspose_def
      split: if_splits)

lemma sin_fuentes_falla:
  "filter esFuenteV els = [] \<Longrightarrow> \<not> exito (analizarCircuito els n g f)"
proof
  assume v: "filter esFuenteV els = []" and ok: "exito (analizarCircuito els n g f)"
  show False
  proof (cases "intentarAnalizar els n g f")
    case (Inl e)
    with ok show False by (simp add: analizarCircuito_def fallo_def)
  next
    case (Inr r)
    from intentarAnalizar_Inr[OF Inr] obtain B C where
      "construirMatrizB els n g = Inr B" "construirMatrizC B = Inr C" by blast
    with sin_fuentes_C[OF v] show False by simp
  qed
qed

text \<open>C10. For a circuit without voltage source \<^verbatim>\<open>construirMatrizB\<close> returns the matrix of
  size \<open>(numNodes - 1) x 0\<close> and \<^verbatim>\<open>construirVectorE\<close> the vector of size \<open>0 x 1\<close>, but
  \<^verbatim>\<open>construirMatrizC\<close> then transposes a matrix without columns, which math.js refuses:
  \<^verbatim>\<open>analizarCircuito\<close> returns the failure object, and neither \<open>A\<close> nor \<open>z\<close> is assembled.
  Here: a current source of 1 A and a resistor of 1000 Ohm between node 1 and ground.\<close>

theorem sin_fuentes_de_voltaje_falla:
  "construirMatrizB soloCorriente 2 0 = Inr \<lparr>filas = 1, columnas = 0, datos = [[]]\<rparr> \<and>
   construirVectorE soloCorriente = Inr \<lparr>filas = 0, columnas = 1, datos = []\<rparr> \<and>
   analizarCircuito soloCorriente 2 0 0 = fallo (Mathjs (TransponerSinColumnas 1))"
proof -
  have v: "filter esFuenteV soloCorriente = []"
    by (simp add: soloCorriente_def esFuenteV_def)
  have B: "construirMatrizB soloCorriente 2 0 = Inr \<lparr>filas = 1, columnas = 0, datos = [[]]\<rparr>"
    by (simp add: sin_fuentes_B[OF v] mathZeros_def)
  have G: "\<exists>G. construirMatrizG soloCorriente 2 0 0 = Inr G"
    by (simp add: soloCorriente_def construirMatrizG_def esPasivo_def mathZeros_def estampaG_def
        conductancia_def nodoAIndice_def sumarElemento_def poner_def obtener_def Let_def)
  have nv: "soloCorriente \<noteq> []" by (simp add: soloCorriente_def)
  have "intentarAnalizar soloCorriente 2 0 0 = Inl (Mathjs (TransponerSinColumnas 1))"
    using G unfolding intentarAnalizar_def Let_def v
    by (auto simp add: nv B construirMatrizC_def mathTranspose_def)
  then show ?thesis
    by (simp add: B sin_fuentes_E[OF v] analizarCircuito_def)
qed

subsection \<open>Elimination on a matrix with a non-trivial kernel\<close>

text \<open>When a non-zero vector is orthogonal to every row of a square matrix, the determinant
  that the elimination computes is zero.\<close>

lemma escalar_Nil [simp]: "escalar [] ys = 0" "escalar xs [] = 0"
  by (simp_all add: escalar_def)

lemma escalar_Cons [simp]: "escalar (a # xs) (b # ys) = a * b + escalar xs ys"
  by (simp add: escalar_def)

lemma escalar_ceros: "(\<forall>y\<in>set ys. y = 0) \<Longrightarrow> escalar xs ys = 0"
proof (induction xs arbitrary: ys)
  case Nil
  then show ?case by simp
next
  case (Cons a xs)
  then show ?case by (cases ys) simp_all
qed

lemma escalar_append:
  "length xs = length ys \<Longrightarrow> escalar (xs @ xs') (ys @ ys') = escalar xs ys + escalar xs' ys'"
  by (induction xs ys rule: list_induct2) simp_all

lemma escalar_combinacion:
  "length p = length r \<Longrightarrow> length r = length x \<Longrightarrow>
     escalar (map2 (\<lambda>a b. b - c * a) p r) x = escalar r x - c * escalar p x"
  by (induction p r x rule: list_induct3) (simp_all add: algebra_simps)

lemma pivote_Some:
  "pivote rows = Some k \<Longrightarrow> k < length rows \<and> hd (rows ! k) \<noteq> 0"
proof (induction rows arbitrary: k)
  case Nil
  then show ?case by simp
next
  case (Cons r rows)
  then show ?case by (cases "hd r = 0") auto
qed

lemma set_quitar: "set (quitar k xs) \<subseteq> set xs"
  unfolding quitar_def using set_take_subset[of k xs] set_drop_subset[of "Suc k" xs] by auto

lemma length_quitar: "k < length xs \<Longrightarrow> length (quitar k xs) = length xs - 1"
  by (auto simp add: quitar_def)

lemma length_reducir: "length p = Suc n \<Longrightarrow> length r = Suc n \<Longrightarrow> length (reducir p r) = n"
  by (simp add: reducir_def)

lemma escalar_reducir:
  assumes "length p = Suc n" "length r = Suc n" "length x = Suc n"
    and "hd p \<noteq> 0" and "escalar p x = 0" and "escalar r x = 0"
  shows "escalar (reducir p r) (tl x) = 0"
proof -
  from assms(1) obtain p0 ps where p: "p = p0 # ps" by (cases p) auto
  from assms(2) obtain r0 rs where r: "r = r0 # rs" by (cases r) auto
  from assms(3) obtain x0 xs where x: "x = x0 # xs" by (cases x) auto
  have "escalar (map2 (\<lambda>a b. b - r0 / p0 * a) p r) x = escalar r x - r0 / p0 * escalar p x"
  proof (rule escalar_combinacion)
    show "length p = length r" using assms(1,2) by simp
    show "length r = length x" using assms(2,3) by simp
  qed
  then have "escalar (map2 (\<lambda>a b. b - r0 / p0 * a) p r) x = 0"
    using assms(5,6) by simp
  moreover have "map2 (\<lambda>a b. b - r0 / p0 * a) p r = 0 # reducir p r"
    using assms(4) by (simp add: p r reducir_def)
  ultimately show ?thesis by (simp add: x)
qed

lemma detElim_nucleo:
  "length rows = n \<Longrightarrow> (\<forall>r\<in>set rows. length r = n) \<Longrightarrow> length x = n \<Longrightarrow>
   (\<exists>y\<in>set x. y \<noteq> 0) \<Longrightarrow> (\<forall>r\<in>set rows. escalar r x = 0) \<Longrightarrow> detElim n rows = 0"
proof (induction n arbitrary: rows x)
  case 0
  then show ?case by simp
next
  case (Suc n)
  show ?case
  proof (cases "pivote rows")
    case None
    then show ?thesis by simp
  next
    case (Some k)
    from pivote_Some[OF Some] have k: "k < length rows" and p0: "hd (rows ! k) \<noteq> 0" by simp_all
    define p where "p = rows ! k"
    have pin: "p \<in> set rows" using k by (simp add: p_def)
    have lp: "length p = Suc n" using Suc.prems(2) pin by simp
    have ep: "escalar p x = 0" using Suc.prems(5) pin by simp
    from Suc.prems(3) obtain x0 xs where x: "x = x0 # xs" by (cases x) auto
    from lp obtain q0 qs where p: "p = q0 # qs" by (cases p) auto
    have q0: "q0 \<noteq> 0" using p0 by (simp add: p_def[symmetric] p)
    have nz: "\<exists>y\<in>set (tl x). y \<noteq> 0"
    proof (rule ccontr)
      assume "\<not> (\<exists>y\<in>set (tl x). y \<noteq> 0)"
      then have z: "\<forall>y\<in>set xs. y = 0" by (simp add: x)
      with Suc.prems(4) have "x0 \<noteq> 0" by (auto simp add: x)
      moreover from ep have "q0 * x0 + escalar qs xs = 0" by (simp add: p x)
      ultimately show False using escalar_ceros[OF z, of qs] q0 by simp
    qed
    let ?rows' = "map (reducir p) (quitar k rows)"
    have 1: "length ?rows' = n" using k Suc.prems(1) by (simp add: length_quitar)
    have sub: "r \<in> set rows" if "r \<in> set (quitar k rows)" for r
      using that set_quitar[of k rows] by (rule subsetD[rotated])
    have 2: "\<forall>r\<in>set ?rows'. length r = n"
    proof
      fix r' assume "r' \<in> set ?rows'"
      then obtain r where r: "r \<in> set rows" "r' = reducir p r" by (auto dest: sub)
      from Suc.prems(2) r(1) have "length r = Suc n" by simp
      with lp show "length r' = n" unfolding r(2) by (rule length_reducir)
    qed
    have 3: "length (tl x) = n" using Suc.prems(3) by simp
    have 5: "\<forall>r\<in>set ?rows'. escalar r (tl x) = 0"
    proof
      fix r' assume "r' \<in> set ?rows'"
      then obtain r where r: "r \<in> set rows" "r' = reducir p r" by (auto dest: sub)
      have "length r = Suc n" "escalar r x = 0" using Suc.prems(2,5) r(1) by simp_all
      with lp Suc.prems(3) p0 ep show "escalar r' (tl x) = 0"
        unfolding r(2) p_def by (intro escalar_reducir[where n = n])
    qed
    from Suc.IH[OF 1 2 3 nz 5] Some show ?thesis by (simp add: p_def)
  qed
qed

subsection \<open>Shapes, and the products of the rows of G with a vector\<close>

lemma mathZeros_forma:
  "0 \<le> r \<Longrightarrow> 0 \<le> c \<Longrightarrow>
     \<exists>M. mathZeros r c = Inr M \<and> forma M (nat r) (nat c) \<and>
         (\<forall>k<nat r. \<forall>l<nat c. datos M ! k ! l = 0)"
  by (simp add: mathZeros_def forma_def)

lemma forma_fila: "forma M r c \<Longrightarrow> k < r \<Longrightarrow> length (datos M ! k) = c"
  by (simp add: forma_def)

lemma forma_poner: "forma M r c \<Longrightarrow> i < r \<Longrightarrow> forma (poner M i j a) r c"
proof -
  assume f: "forma M r c" and i: "i < r"
  have "length row = c" if "row \<in> set ((datos M)[i := (datos M ! i)[j := a]])" for row
  proof -
    from that have "row \<in> insert ((datos M ! i)[j := a]) (set (datos M))"
      using set_update_subset_insert by fastforce
    with f i show ?thesis by (auto simp add: forma_def)
  qed
  with f show ?thesis by (simp add: forma_def poner_def)
qed

lemma poner_entrada:
  "forma M r c \<Longrightarrow> i < r \<Longrightarrow> j < c \<Longrightarrow> k < r \<Longrightarrow>
     datos (poner M i j a) ! k = (if k = i then (datos M ! i)[j := a] else datos M ! k)"
  by (simp add: poner_def forma_def)

lemma escalar_update:
  "j < length r \<Longrightarrow> length v = length r \<Longrightarrow>
     escalar (r[j := a]) v = escalar r v + (a - r ! j) * v ! j"
proof (induction r arbitrary: j v)
  case Nil
  then show ?case by simp
next
  case (Cons b r)
  from Cons.prems(2) obtain w ws where v: "v = w # ws" by (cases v) auto
  show ?case
  proof (cases j)
    case 0
    then show ?thesis by (simp add: v algebra_simps)
  next
    case (Suc j')
    with Cons.prems have "j' < length r" "length ws = length r" by (simp_all add: v)
    from Cons.IH[OF this] show ?thesis by (simp add: v Suc)
  qed
qed

lemma sumarElemento_producto:
  assumes f: "forma M r c" and v: "length v = c"
    and i: "0 \<le> i" "i < int r" and j: "0 \<le> j" "j < int c"
  shows "\<exists>M'. sumarElemento M i j y = Inr M' \<and> forma M' r c \<and>
           (\<forall>k<r. escalar (datos M' ! k) v =
                   escalar (datos M ! k) v + (if k = nat i then y * v ! nat j else 0))"
proof -
  let ?M' = "poner M (nat i) (nat j) (obtener M (nat i) (nat j) + y)"
  have ni: "nat i < r" and nj: "nat j < c" using i j by simp_all
  have s: "sumarElemento M i j y = Inr ?M'"
    using f i j by (simp add: sumarElemento_def forma_def)
  have f': "forma ?M' r c" using f ni by (rule forma_poner)
  have "escalar (datos ?M' ! k) v =
          escalar (datos M ! k) v + (if k = nat i then y * v ! nat j else 0)" if k: "k < r" for k
  proof (cases "k = nat i")
    case True
    have l: "length (datos M ! nat i) = c" using f ni by (rule forma_fila)
    have "escalar ((datos M ! nat i)[nat j := datos M ! nat i ! nat j + y]) v =
            escalar (datos M ! nat i) v + (datos M ! nat i ! nat j + y - datos M ! nat i ! nat j) * v ! nat j"
      using nj l v by (intro escalar_update) simp_all
    then show ?thesis
      using True k by (simp add: poner_entrada[OF f ni nj] obtener_def)
  next
    case False
    then show ?thesis using k by (simp add: poner_entrada[OF f ni nj])
  qed
  with s f' show ?thesis by blast
qed

lemma estampaG_anula:
  assumes f: "forma G N N" and v: "length v = N"
    and an: "\<forall>k<N. escalar (datos G ! k) v = 0"
    and y: "conductancia e fr = Inr y"
    and c: "compatible g N v e"
  shows "\<exists>G'. estampaG g fr G e = Inr G' \<and> forma G' N N \<and>
           (\<forall>k<N. escalar (datos G' ! k) v = 0)"
proof -
  define i where "i = nodoAIndice (nodoPositivo e) g"
  define j where "j = nodoAIndice (nodoNegativo e) g"
  from c have iN: "i < int N" and jN: "j < int N"
    and vij: "0 \<le> i \<Longrightarrow> 0 \<le> j \<Longrightarrow> v ! nat i = v ! nat j"
    and vi: "0 \<le> i \<Longrightarrow> j < 0 \<Longrightarrow> v ! nat i = 0"
    and vj: "i < 0 \<Longrightarrow> 0 \<le> j \<Longrightarrow> v ! nat j = 0"
    by (simp_all add: compatible_def Let_def i_def j_def)
  have e: "estampaG g fr G e =
      luego (if 0 \<le> i then sumarElemento G i i y else Inr G) (\<lambda>G1.
      luego (if 0 \<le> j then sumarElemento G1 j j y else Inr G1) (\<lambda>G2.
      if 0 \<le> i \<and> 0 \<le> j
      then luego (sumarElemento G2 i j (- y)) (\<lambda>G3. sumarElemento G3 j i (- y))
      else Inr G2))"
    by (simp add: estampaG_def y Let_def i_def j_def)
  show ?thesis
  proof (cases "0 \<le> i")
    case True
    note i0 = True
    from sumarElemento_producto[OF f v i0 iN i0 iN, of y] obtain G1 where
      s1: "sumarElemento G i i y = Inr G1" and f1: "forma G1 N N" and
      p1: "\<forall>k<N. escalar (datos G1 ! k) v =
              escalar (datos G ! k) v + (if k = nat i then y * v ! nat i else 0)" by blast
    show ?thesis
    proof (cases "0 \<le> j")
      case True
      note j0 = True
      from sumarElemento_producto[OF f1 v j0 jN j0 jN, of y] obtain G2 where
        s2: "sumarElemento G1 j j y = Inr G2" and f2: "forma G2 N N" and
        p2: "\<forall>k<N. escalar (datos G2 ! k) v =
                escalar (datos G1 ! k) v + (if k = nat j then y * v ! nat j else 0)" by blast
      from sumarElemento_producto[OF f2 v i0 iN j0 jN, of "- y"] obtain G3 where
        s3: "sumarElemento G2 i j (- y) = Inr G3" and f3: "forma G3 N N" and
        p3: "\<forall>k<N. escalar (datos G3 ! k) v =
                escalar (datos G2 ! k) v + (if k = nat i then - y * v ! nat j else 0)" by blast
      from sumarElemento_producto[OF f3 v j0 jN i0 iN, of "- y"] obtain G4 where
        s4: "sumarElemento G3 j i (- y) = Inr G4" and f4: "forma G4 N N" and
        p4: "\<forall>k<N. escalar (datos G4 ! k) v =
                escalar (datos G3 ! k) v + (if k = nat j then - y * v ! nat i else 0)" by blast
      have r: "estampaG g fr G e = Inr G4"
        by (simp add: e i0 j0 s1 s2 s3 s4)
      have "escalar (datos G4 ! k) v = 0" if "k < N" for k
        using that p1 p2 p3 p4 an vij[OF i0 j0] by simp
      with r f4 show ?thesis by blast
    next
      case False
      then have r: "estampaG g fr G e = Inr G1" by (simp add: e i0 s1)
      have "escalar (datos G1 ! k) v = 0" if "k < N" for k
        using that p1 an vi[OF i0] False by simp
      with r f1 show ?thesis by blast
    qed
  next
    case False
    note i0 = False
    show ?thesis
    proof (cases "0 \<le> j")
      case True
      note j0 = True
      from sumarElemento_producto[OF f v j0 jN j0 jN, of y] obtain G2 where
        s2: "sumarElemento G j j y = Inr G2" and f2: "forma G2 N N" and
        p2: "\<forall>k<N. escalar (datos G2 ! k) v =
                escalar (datos G ! k) v + (if k = nat j then y * v ! nat j else 0)" by blast
      have r: "estampaG g fr G e = Inr G2" by (simp add: e i0 j0 s2)
      have "escalar (datos G2 ! k) v = 0" if "k < N" for k
        using that p2 an vj[OF _ j0] i0 by simp
      with r f2 show ?thesis by blast
    next
      case False
      then have "estampaG g fr G e = Inr G" by (simp add: e i0)
      with f an show ?thesis by blast
    qed
  qed
qed

lemma estamparG_anula:
  assumes v: "length v = N"
  shows "forma G N N \<Longrightarrow> \<forall>k<N. escalar (datos G ! k) v = 0 \<Longrightarrow>
     \<forall>e\<in>set xs. compatible g N v e \<and> (\<exists>y. conductancia e fr = Inr y) \<Longrightarrow>
     \<exists>G'. estamparG g fr G xs = Inr G' \<and> forma G' N N \<and>
          (\<forall>k<N. escalar (datos G' ! k) v = 0)"
proof (induction xs arbitrary: G)
  case Nil
  then show ?case by simp
next
  case (Cons e xs)
  from Cons.prems(3) obtain y where y: "conductancia e fr = Inr y" and c: "compatible g N v e"
    by auto
  from estampaG_anula[OF Cons.prems(1) v Cons.prems(2) y c] obtain G1 where
    s: "estampaG g fr G e = Inr G1" and f1: "forma G1 N N" and
    a1: "\<forall>k<N. escalar (datos G1 ! k) v = 0" by blast
  from Cons.prems(3) have rest: "\<forall>e\<in>set xs. compatible g N v e \<and> (\<exists>y. conductancia e fr = Inr y)"
    by simp
  from Cons.IH[OF f1 a1 rest] s show ?case by simp
qed

subsection \<open>The columns of B\<close>

lemma establecer_opcional:
  assumes f: "forma M r c" and v: "length v = r" and i: "i < int r" and j: "j0 < c"
  shows "\<exists>M'. (if 0 \<le> i then establecerElemento M i (int j0) a else Inr M) = Inr M' \<and>
           forma M' r c \<and>
           (\<forall>l<c. escalar (columna M' l) v =
                   escalar (columna M l) v +
                   (if l = j0 \<and> 0 \<le> i then (a - datos M ! nat i ! j0) * v ! nat i else 0)) \<and>
           (\<forall>k<r. \<forall>l<c. datos M' ! k ! l =
                   (if 0 \<le> i \<and> k = nat i \<and> l = j0 then a else datos M ! k ! l))"
proof (cases "0 \<le> i")
  case False
  then show ?thesis using f by simp
next
  case True
  let ?M' = "poner M (nat i) j0 a"
  have ni: "nat i < r" using i True by simp
  have s: "establecerElemento M i (int j0) a = Inr ?M'"
    using f i j True by (simp add: establecerElemento_def forma_def)
  have f': "forma ?M' r c" using f ni by (rule forma_poner)
  have li: "length (datos M ! nat i) = c" using f ni by (rule forma_fila)
  have ent: "datos ?M' ! k ! l = (if k = nat i \<and> l = j0 then a else datos M ! k ! l)"
    if "k < r" "l < c" for k l
    using that li j by (simp add: poner_entrada[OF f ni j] nth_list_update)
  have col: "escalar (columna ?M' l) v =
               escalar (columna M l) v + (if l = j0 then (a - datos M ! nat i ! j0) * v ! nat i else 0)"
    if l: "l < c" for l
  proof -
    have lr: "length (datos M) = r" using f by (simp add: forma_def)
    have "columna ?M' l = (columna M l)[nat i := ((datos M ! nat i)[j0 := a]) ! l]"
      by (simp add: columna_def poner_def map_update)
    also have "((datos M ! nat i)[j0 := a]) ! l = (if l = j0 then a else datos M ! nat i ! l)"
      using li l by (simp add: nth_list_update)
    finally have c1: "columna ?M' l = (columna M l)[nat i := (if l = j0 then a else datos M ! nat i ! l)]" .
    have "escalar ((columna M l)[nat i := (if l = j0 then a else datos M ! nat i ! l)]) v =
            escalar (columna M l) v +
            ((if l = j0 then a else datos M ! nat i ! l) - columna M l ! nat i) * v ! nat i"
      using ni lr v by (intro escalar_update) (simp_all add: columna_def)
    moreover have "columna M l ! nat i = datos M ! nat i ! l"
      using ni lr by (simp add: columna_def)
    ultimately show ?thesis unfolding c1 by simp
  qed
  from s f' ent col True show ?thesis by simp
qed

lemma estamparB_anula:
  assumes v: "length v = N"
  shows "forma B N m \<Longrightarrow> j0 + length fs \<le> m \<Longrightarrow>
     \<forall>l<m. escalar (columna B l) v = 0 \<Longrightarrow>
     \<forall>l<m. j0 \<le> l \<longrightarrow> (\<forall>k<N. datos B ! k ! l = 0) \<Longrightarrow>
     \<forall>e\<in>set fs. compatibleV g N v e \<Longrightarrow>
     \<exists>B'. estamparB g B j0 fs = Inr B' \<and> forma B' N m \<and>
          (\<forall>l<m. escalar (columna B' l) v = 0)"
proof (induction fs arbitrary: B j0)
  case Nil
  then show ?case by simp
next
  case (Cons fu fs)
  define i where "i = nodoAIndice (nodoPositivo fu) g"
  define j where "j = nodoAIndice (nodoNegativo fu) g"
  from Cons.prems(5) have cv: "compatibleV g N v fu" by simp
  then have iN: "i < int N" and jN: "j < int N"
    and vij: "0 \<le> i \<Longrightarrow> 0 \<le> j \<Longrightarrow> v ! nat i = v ! nat j"
    and vi: "0 \<le> i \<Longrightarrow> j < 0 \<Longrightarrow> v ! nat i = 0"
    and vj: "i < 0 \<Longrightarrow> 0 \<le> j \<Longrightarrow> v ! nat j = 0"
    and ij: "0 \<le> i \<Longrightarrow> 0 \<le> j \<Longrightarrow> i \<noteq> j"
    by (simp_all add: compatibleV_def compatible_def Let_def i_def j_def)
  from Cons.prems(2) have j0: "j0 < m" by simp
  from establecer_opcional[OF Cons.prems(1) v iN j0, of 1] obtain B1 where
    s1: "(if 0 \<le> i then establecerElemento B i (int j0) 1 else Inr B) = Inr B1" and
    f1: "forma B1 N m" and
    c1: "\<forall>l<m. escalar (columna B1 l) v =
            escalar (columna B l) v +
            (if l = j0 \<and> 0 \<le> i then (1 - datos B ! nat i ! j0) * v ! nat i else 0)" and
    e1: "\<forall>k<N. \<forall>l<m. datos B1 ! k ! l =
            (if 0 \<le> i \<and> k = nat i \<and> l = j0 then 1 else datos B ! k ! l)" by blast
  from establecer_opcional[OF f1 v jN j0, of "- 1"] obtain B2 where
    s2: "(if 0 \<le> j then establecerElemento B1 j (int j0) (- 1) else Inr B1) = Inr B2" and
    f2: "forma B2 N m" and
    c2: "\<forall>l<m. escalar (columna B2 l) v =
            escalar (columna B1 l) v +
            (if l = j0 \<and> 0 \<le> j then (- 1 - datos B1 ! nat j ! j0) * v ! nat j else 0)" and
    e2: "\<forall>k<N. \<forall>l<m. datos B2 ! k ! l =
            (if 0 \<le> j \<and> k = nat j \<and> l = j0 then - 1 else datos B1 ! k ! l)" by blast
  have z0: "datos B ! k ! j0 = 0" if "k < N" for k
    using Cons.prems(4) j0 that by simp
  have bi: "0 \<le> i \<Longrightarrow> datos B ! nat i ! j0 = 0"
    using z0[of "nat i"] iN by simp
  have bj: "0 \<le> j \<Longrightarrow> datos B1 ! nat j ! j0 = 0"
  proof -
    assume jp: "0 \<le> j"
    then have nj: "nat j < N" using jN by simp
    have "datos B1 ! nat j ! j0 = (if 0 \<le> i \<and> nat j = nat i then 1 else datos B ! nat j ! j0)"
      using e1 nj j0 by simp
    also have "\<dots> = 0"
    proof (cases "0 \<le> i")
      case True
      from ij[OF True jp] True jp have "nat j \<noteq> nat i" by simp
      then show ?thesis using z0[OF nj] by simp
    next
      case False
      then show ?thesis using z0[OF nj] by simp
    qed
    finally show ?thesis .
  qed
  have cols: "escalar (columna B2 l) v = 0" if l: "l < m" for l
  proof (cases "l = j0")
    case False
    then show ?thesis using c1 c2 l Cons.prems(3) by simp
  next
    case True
    have "escalar (columna B2 l) v =
            (if 0 \<le> i then v ! nat i else 0) - (if 0 \<le> j then v ! nat j else 0)"
      using c1 c2 l Cons.prems(3) True bi bj by simp
    also have "\<dots> = 0"
      using vij vi vj by (cases "0 \<le> i"; cases "0 \<le> j") simp_all
    finally show ?thesis .
  qed
  have zeros: "\<forall>l<m. Suc j0 \<le> l \<longrightarrow> (\<forall>k<N. datos B2 ! k ! l = 0)"
    using e1 e2 Cons.prems(4) by simp
  have len: "Suc j0 + length fs \<le> m" using Cons.prems(2) by simp
  have rest: "\<forall>e\<in>set fs. compatibleV g N v e" using Cons.prems(5) by simp
  from Cons.IH[OF f2 len _ zeros rest] cols obtain B' where
    "estamparB g B2 (Suc j0) fs = Inr B'" "forma B' N m" "\<forall>l<m. escalar (columna B' l) v = 0"
    by blast
  moreover have "estamparB g B j0 (fu # fs) = estamparB g B2 (Suc j0) fs"
    using s1 s2 by (simp add: Let_def i_def[symmetric] j_def[symmetric])
  ultimately show ?case by simp
qed

subsection \<open>The vectors and the assembled matrix\<close>

lemma sumarElemento_forma:
  "forma M r c \<Longrightarrow> 0 \<le> i \<Longrightarrow> i < int r \<Longrightarrow> 0 \<le> j \<Longrightarrow> j < int c \<Longrightarrow>
     \<exists>M'. sumarElemento M i j y = Inr M' \<and> forma M' r c"
  using sumarElemento_producto[of M r c "replicate c 0" i j y] by auto

lemma estamparI_forma:
  "forma i N 1 \<Longrightarrow>
   \<forall>e\<in>set fs. nodoAIndice (nodoPositivo e) g < int N \<and> nodoAIndice (nodoNegativo e) g < int N \<Longrightarrow>
   \<exists>i'. estamparI g i fs = Inr i' \<and> forma i' N 1"
proof (induction fs arbitrary: i)
  case Nil
  then show ?case by simp
next
  case (Cons fu fs)
  define p where "p = nodoAIndice (nodoPositivo fu) g"
  define q where "q = nodoAIndice (nodoNegativo fu) g"
  from Cons.prems(2) have pN: "p < int N" and qN: "q < int N" by (simp_all add: p_def q_def)
  have "\<exists>i1. (if 0 \<le> p then sumarElemento i p 0 (complex_of_real (valor fu)) else Inr i) = Inr i1
          \<and> forma i1 N 1"
    using sumarElemento_forma[OF Cons.prems(1) _ pN, of 0] Cons.prems(1) by (cases "0 \<le> p") simp_all
  then obtain i1 where
    s1: "(if 0 \<le> p then sumarElemento i p 0 (complex_of_real (valor fu)) else Inr i) = Inr i1"
    and f1: "forma i1 N 1" by blast
  have "\<exists>i2. (if 0 \<le> q then sumarElemento i1 q 0 (- complex_of_real (valor fu)) else Inr i1) = Inr i2
          \<and> forma i2 N 1"
    using sumarElemento_forma[OF f1 _ qN, of 0] f1 by (cases "0 \<le> q") simp_all
  then obtain i2 where
    s2: "(if 0 \<le> q then sumarElemento i1 q 0 (- complex_of_real (valor fu)) else Inr i1) = Inr i2"
    and f2: "forma i2 N 1" by blast
  from Cons.prems(2) have "\<forall>e\<in>set fs. nodoAIndice (nodoPositivo e) g < int N \<and>
      nodoAIndice (nodoNegativo e) g < int N" by simp
  from Cons.IH[OF f2 this] obtain i' where "estamparI g i2 fs = Inr i'" "forma i' N 1" by blast
  moreover have "estamparI g i (fu # fs) = estamparI g i2 fs"
    using s1 s2 by (simp add: Let_def p_def[symmetric] q_def[symmetric])
  ultimately show ?case by simp
qed

lemma llenarE_forma:
  "forma e m 1 \<Longrightarrow> j + length fs \<le> m \<Longrightarrow> forma (llenarE e j fs) m 1"
proof (induction fs arbitrary: e j)
  case Nil
  then show ?case by simp
next
  case (Cons fu fs)
  from Cons.prems(2) have "j < m" by simp
  with Cons.prems(1) have "forma (poner e j 0 (complex_of_real (valor fu))) m 1"
    by (rule forma_poner)
  moreover from Cons.prems(2) have "Suc j + length fs \<le> m" by simp
  ultimately show ?case using Cons.IH by simp
qed

lemma set_map2:
  "r \<in> set (map2 f xs ys) \<Longrightarrow> \<exists>k. k < length xs \<and> k < length ys \<and> r = f (xs ! k) (ys ! k)"
  by (fastforce simp add: in_set_conv_nth)

lemma ensamblar_anula:
  assumes fG: "forma G N N" and fB: "forma B N m" and N: "N \<noteq> 0" and m: "m \<noteq> 0"
    and v: "length v = N"
    and aG: "\<forall>k<N. escalar (datos G ! k) v = 0"
    and aB: "\<forall>l<m. escalar (columna B l) v = 0"
  shows "\<exists>C D A. construirMatrizC B = Inr C \<and> construirMatrizD m = Inr D \<and>
           ensamblarMatrizA G B C D = Inr A \<and> forma A (N + m) (N + m) \<and>
           (\<forall>r\<in>set (datos A). escalar r (v @ replicate m 0) = 0)"
proof -
  let ?C = "\<lparr>filas = m, columnas = N, datos = map (columna B) [0..<m]\<rparr>"
  let ?D = "\<lparr>filas = m, columnas = m, datos = replicate m (replicate m 0)\<rparr>"
  let ?sup = "map2 (@) (datos G) (datos B)"
  let ?inf = "map2 (@) (datos ?C) (datos ?D)"
  let ?A = "\<lparr>filas = N + m, columnas = N + m, datos = ?sup @ ?inf\<rparr>"
  let ?x = "v @ replicate m 0"
  have C: "construirMatrizC B = Inr ?C"
    using fB m by (simp add: construirMatrizC_def mathTranspose_def forma_def columna_def)
  have D: "construirMatrizD m = Inr ?D"
    by (simp add: construirMatrizD_def mathZeros_def)
  have A: "ensamblarMatrizA G B ?C ?D = Inr ?A"
    using fG fB N m
    by (simp add: ensamblarMatrizA_def mathConcat1_def mathConcat0_def forma_def)
  have lG: "length (datos G) = N" and lB: "length (datos B) = N"
    using fG fB by (simp_all add: forma_def)
  have sup: "length r = N + m \<and> escalar r ?x = 0" if "r \<in> set ?sup" for r
  proof -
    from set_map2[OF that] obtain k where k: "k < N" and r: "r = datos G ! k @ datos B ! k"
      using lG lB by auto
    have g: "length (datos G ! k) = N" using fG k by (rule forma_fila)
    have b: "length (datos B ! k) = m" using fB k by (rule forma_fila)
    have "escalar r ?x = escalar (datos G ! k) v + escalar (datos B ! k) (replicate m 0)"
      unfolding r using g v by (intro escalar_append) simp
    then show ?thesis using aG k g b by (simp add: r escalar_ceros)
  qed
  have inf: "length r = N + m \<and> escalar r ?x = 0" if "r \<in> set ?inf" for r
  proof -
    from set_map2[OF that] obtain l where l: "l < m"
      and r: "r = (map (columna B) [0..<m]) ! l @ replicate m (replicate m 0) ! l"
      by auto
    from l have r': "r = columna B l @ replicate m 0" by (simp add: r)
    have c: "length (columna B l) = N" using lB by (simp add: columna_def)
    have "escalar r ?x = escalar (columna B l) v + escalar (replicate m 0) (replicate m 0)"
      unfolding r' using c v by (intro escalar_append) simp
    then show ?thesis using aB l c by (simp add: r' escalar_ceros)
  qed
  have fA: "forma ?A (N + m) (N + m)"
    using sup inf lG lB by (auto simp add: forma_def)
  have "\<forall>r\<in>set (datos ?A). escalar r ?x = 0"
    using sup inf by auto
  with C D A fA show ?thesis by blast
qed

subsection \<open>The solution of the elimination\<close>

lemma set_con_quitar: "k < length xs \<Longrightarrow> set xs = insert (xs ! k) (set (quitar k xs))"
proof -
  assume k: "k < length xs"
  then have "xs = take k xs @ xs ! k # drop (Suc k) xs" by (rule id_take_nth_drop)
  then have "set xs = set (take k xs @ xs ! k # drop (Suc k) xs)" by simp
  then show ?thesis by (simp add: quitar_def)
qed

lemma reducir_partes:
  assumes "length ps = length rs"
  shows "reducir (p0 # ps @ [pl]) (r0 # rs @ [rl]) =
           map2 (\<lambda>a b. b - r0 / p0 * a) ps rs @ [rl - r0 / p0 * pl]"
  using assms by (simp add: reducir_def)

lemma resolverElim_solucion:
  "length rows = n \<Longrightarrow> (\<forall>r\<in>set rows. length r = Suc n) \<Longrightarrow> resolverElim n rows = Some xs \<Longrightarrow>
     length xs = n \<and> (\<forall>r\<in>set rows. escalar (butlast r) xs = last r)"
proof (induction n arbitrary: rows xs)
  case 0
  then show ?case by simp
next
  case (Suc n)
  from Suc.prems(3) obtain k ys where
    pk: "pivote rows = Some k" and
    rec: "resolverElim n (map (reducir (rows ! k)) (quitar k rows)) = Some ys" and
    xs: "xs = (last (rows ! k) - escalar (butlast (tl (rows ! k))) ys) / hd (rows ! k) # ys"
    by (auto split: option.splits)
  from pivote_Some[OF pk] have k: "k < length rows" and h: "hd (rows ! k) \<noteq> 0" by simp_all
  define p where "p = rows ! k"
  have pin: "p \<in> set rows" using k by (simp add: p_def)
  then have lp: "length p = Suc (Suc n)" using Suc.prems(2) by simp
  then obtain p0 pr where p: "p = p0 # pr" and lpr: "length pr = Suc n" by (cases p) auto
  from lpr obtain ps pl where pr: "pr = ps @ [pl]" and lps: "length ps = n"
    by (cases pr rule: rev_cases) auto
  have p0: "p0 \<noteq> 0" using h by (simp add: p_def[symmetric] p)
  define x0 where "x0 = (pl - escalar ps ys) / p0"
  have xs': "xs = x0 # ys" by (simp add: xs p_def[symmetric] p pr x0_def)
  let ?rows' = "map (reducir p) (quitar k rows)"
  have sub: "r \<in> set rows" if "r \<in> set (quitar k rows)" for r
    using that set_quitar[of k rows] by (rule subsetD[rotated])
  have 1: "length ?rows' = n" using k Suc.prems(1) by (simp add: length_quitar)
  have 2: "\<forall>r\<in>set ?rows'. length r = Suc n"
  proof
    fix r' assume "r' \<in> set ?rows'"
    then obtain r where r: "r \<in> set rows" "r' = reducir p r" by (auto dest: sub)
    from Suc.prems(2) r(1) have "length r = Suc (Suc n)" by simp
    with lp show "length r' = Suc n" unfolding r(2) by (rule length_reducir)
  qed
  from Suc.IH[OF 1 2] rec have lys: "length ys = n"
    and ih: "\<forall>r\<in>set ?rows'. escalar (butlast r) ys = last r" by (simp_all add: p_def)
  have ecp: "escalar (butlast p) xs = last p"
    using p0 by (simp add: p pr xs' x0_def)
  have "escalar (butlast r) xs = last r" if r: "r \<in> set (quitar k rows)" for r
  proof -
    from Suc.prems(2) sub[OF r] have "length r = Suc (Suc n)" by simp
    then obtain r0 rr where r': "r = r0 # rr" and lrr: "length rr = Suc n" by (cases r) auto
    from lrr obtain rs rl where rr: "rr = rs @ [rl]" and lrs: "length rs = n"
      by (cases rr rule: rev_cases) auto
    have red: "reducir p r = map2 (\<lambda>a b. b - r0 / p0 * a) ps rs @ [rl - r0 / p0 * pl]"
      unfolding p pr r' rr using lps lrs by (intro reducir_partes) simp
    from ih r have "escalar (butlast (reducir p r)) ys = last (reducir p r)" by simp
    then have "escalar (map2 (\<lambda>a b. b - r0 / p0 * a) ps rs) ys = rl - r0 / p0 * pl"
      by (simp add: red)
    moreover have "escalar (map2 (\<lambda>a b. b - r0 / p0 * a) ps rs) ys =
                     escalar rs ys - r0 / p0 * escalar ps ys"
      using lps lrs lys by (intro escalar_combinacion) simp_all
    ultimately have "escalar rs ys = rl - r0 / p0 * pl + r0 / p0 * escalar ps ys" by simp
    then have "r0 * x0 + escalar rs ys = rl"
      using p0 by (simp add: x0_def field_simps)
    then show ?thesis by (simp add: r' rr xs')
  qed
  with ecp have "\<forall>r\<in>set rows. escalar (butlast r) xs = last r"
    unfolding set_con_quitar[OF k] p_def by simp
  with lys show ?case by (simp add: xs')
qed

text \<open>What \<^verbatim>\<open>math.lusolve\<close> returns solves the system.\<close>

lemma mathLusolve_resuelve:
  assumes fA: "forma A n n" and fz: "forma z n 1" and s: "mathLusolve A z = Inr x"
  shows "forma x n 1 \<and>
         (\<forall>k<n. escalar (datos A ! k) (map hd (datos x)) = hd (datos z ! k))"
proof -
  let ?rows = "map2 (@) (datos A) (datos z)"
  from fA fz have lA: "length (datos A) = n" and lz: "length (datos z) = n"
    by (simp_all add: forma_def)
  from s fA fz obtain xs where r: "resolverElim n ?rows = Some xs"
    and x: "x = \<lparr>filas = n, columnas = 1, datos = map (\<lambda>v. [v]) xs\<rparr>"
    by (auto simp add: mathLusolve_def forma_def split: option.splits if_splits)
  have fila: "?rows ! k = datos A ! k @ datos z ! k" if "k < n" for k
    using that lA lz by simp
  have lAk: "length (datos A ! k) = n" if "k < n" for k using fA that by (rule forma_fila)
  have lzk: "length (datos z ! k) = 1" if "k < n" for k using fz that by (rule forma_fila)
  have zk: "datos z ! k = [hd (datos z ! k)]" if "k < n" for k
    using lzk[OF that] by (cases "datos z ! k") simp_all
  have 1: "length ?rows = n" using lA lz by simp
  have 2: "\<forall>r\<in>set ?rows. length r = Suc n"
  proof
    fix r assume "r \<in> set ?rows"
    from set_map2[OF this] obtain k where "k < n" "r = datos A ! k @ datos z ! k"
      using lA lz by auto
    then show "length r = Suc n" using lAk lzk by simp
  qed
  from resolverElim_solucion[OF 1 2 r] have lx: "length xs = n"
    and sol: "\<forall>r\<in>set ?rows. escalar (butlast r) xs = last r" by simp_all
  have xs: "map hd (datos x) = xs" by (simp add: x comp_def)
  have "escalar (datos A ! k) xs = hd (datos z ! k)" if k: "k < n" for k
  proof -
    have "k < length ?rows" using k 1 by simp
    then have "?rows ! k \<in> set ?rows" by (rule nth_mem)
    with sol have "escalar (butlast (?rows ! k)) xs = last (?rows ! k)" by blast
    moreover have "?rows ! k = datos A ! k @ [hd (datos z ! k)]"
      using fila[OF k] zk[OF k] by simp
    ultimately show ?thesis by simp
  qed
  moreover have "forma x n 1" using lx by (auto simp add: x forma_def)
  ultimately show ?thesis by (simp add: xs)
qed

subsection \<open>A node that is not reachable from the ground node\<close>

lemma indice_en_rango:
  assumes "0 \<le> g" "g < n" "0 \<le> a" "a < n"
  shows "nodoAIndice a g < int (nat (n - 1))"
    and "a \<noteq> g \<Longrightarrow> 0 \<le> nodoAIndice a g"
    and "a = g \<Longrightarrow> nodoAIndice a g < 0"
    and "a \<noteq> g \<Longrightarrow> nodoReal (nodoAIndice a g) g = a"
    and "a \<noteq> g \<Longrightarrow> nat (nodoAIndice a g) < nat (n - 1)"
  using assms by (auto simp add: nodoAIndice_def nodoReal_def)

lemma indicador_nodo:
  assumes "0 \<le> g" "g < n" "0 \<le> a" "a < n" "a \<noteq> g"
  shows "indicador els g (nat (n - 1)) ! nat (nodoAIndice a g) =
           (if a \<in> alcanzables els g then 0 else 1)"
proof -
  have "nat (nodoAIndice a g) < nat (n - 1)"
    using indice_en_rango(5)[OF assms(1-4)] assms(5) by simp
  moreover have "nodoReal (int (nat (nodoAIndice a g))) g = a"
    using indice_en_rango(2,4)[OF assms(1-4)] assms(5) by simp
  ultimately show ?thesis by (simp add: indicador_def)
qed

lemma alcanzables_extremos:
  "e \<in> set els \<Longrightarrow> nodoPositivo e \<in> alcanzables els g \<longleftrightarrow> nodoNegativo e \<in> alcanzables els g"
  using alcanzables.porPositivo alcanzables.porNegativo by blast

lemma valido_compatible:
  assumes g: "0 \<le> g" "g < n" and e: "e \<in> set els" and ev: "elementoValido n e"
  shows "compatibleV g (nat (n - 1)) (indicador els g (nat (n - 1))) e"
proof -
  define a where "a = nodoPositivo e"
  define b where "b = nodoNegativo e"
  define i where "i = nodoAIndice a g"
  define j where "j = nodoAIndice b g"
  define v where "v = indicador els g (nat (n - 1))"
  from ev have ra: "0 \<le> a" "a < n" and rb: "0 \<le> b" "b < n" and ab: "a \<noteq> b"
    by (simp_all add: elementoValido_def a_def b_def)
  have iN: "i < int (nat (n - 1))" and jN: "j < int (nat (n - 1))"
    unfolding i_def j_def using indice_en_rango(1)[OF g ra] indice_en_rango(1)[OF g rb] by simp_all
  have ia: "0 \<le> i \<longleftrightarrow> a \<noteq> g" and jb: "0 \<le> j \<longleftrightarrow> b \<noteq> g"
    unfolding i_def j_def
    using indice_en_rango(2,3)[OF g ra] indice_en_rango(2,3)[OF g rb] by auto
  have va: "a \<noteq> g \<Longrightarrow> v ! nat i = (if a \<in> alcanzables els g then 0 else 1)"
    and vb: "b \<noteq> g \<Longrightarrow> v ! nat j = (if b \<in> alcanzables els g then 0 else 1)"
    unfolding v_def i_def j_def using indicador_nodo[OF g ra] indicador_nodo[OF g rb] by simp_all
  have ext: "a \<in> alcanzables els g \<longleftrightarrow> b \<in> alcanzables els g"
    unfolding a_def b_def using e by (rule alcanzables_extremos)
  have tierra: "g \<in> alcanzables els g" by (rule alcanzables.tierra)
  have c3: "v ! nat i = v ! nat j" if "0 \<le> i" "0 \<le> j"
    using that ia jb va vb ext by simp
  have c4: "v ! nat i = 0" if "0 \<le> i" "j < 0"
  proof -
    from that jb have "b = g" by auto
    with ext tierra have "a \<in> alcanzables els g" by simp
    with that ia va show ?thesis by simp
  qed
  have c5: "v ! nat j = 0" if "i < 0" "0 \<le> j"
  proof -
    from that ia have "a = g" by auto
    with ext tierra have "b \<in> alcanzables els g" by simp
    with that jb vb show ?thesis by simp
  qed
  have c6: "i \<noteq> j" if "0 \<le> i" "0 \<le> j"
    using that ia jb ab by (simp add: i_def j_def nodoAIndice_def split: if_splits)
  show ?thesis
    unfolding compatibleV_def compatible_def Let_def
      a_def[symmetric] b_def[symmetric] i_def[symmetric] j_def[symmetric] v_def[symmetric]
    using iN jN c3 c4 c5 c6 by simp
qed

subsection \<open>The connectivity loop\<close>

lemma pasada_contiene: "pasada els S c = (S', c') \<Longrightarrow> S \<subseteq> S'"
proof (induction els arbitrary: S c)
  case Nil
  then show ?case by simp
next
  case (Cons e els)
  consider (pos) "nodoPositivo e \<in> S" "nodoNegativo e \<notin> S"
    | (neg) "nodoNegativo e \<in> S" "nodoPositivo e \<notin> S"
    | (nada) "nodoPositivo e \<in> S \<longleftrightarrow> nodoNegativo e \<in> S" by blast
  then show ?case
  proof cases
    case pos
    with Cons.prems have "pasada els (insert (nodoNegativo e) S) True = (S', c')" by simp
    from Cons.IH[OF this] show ?thesis by simp
  next
    case neg
    with Cons.prems have "pasada els (insert (nodoPositivo e) S) True = (S', c')" by simp
    from Cons.IH[OF this] show ?thesis by simp
  next
    case nada
    with Cons.prems have "pasada els S c = (S', c')" by (auto split: if_splits)
    from Cons.IH[OF this] show ?thesis .
  qed
qed

lemma pasada_marcada: "pasada els S True = (S', c') \<Longrightarrow> c'"
proof (induction els arbitrary: S)
  case Nil
  then show ?case by simp
next
  case (Cons e els)
  then show ?case by (auto split: if_splits)
qed

lemma pasada_sin_cambio:
  "pasada els S False = (S', False) \<Longrightarrow>
     S' = S \<and> (\<forall>e\<in>set els. nodoPositivo e \<in> S \<longleftrightarrow> nodoNegativo e \<in> S)"
proof (induction els)
  case Nil
  then show ?case by simp
next
  case (Cons e els)
  show ?case
  proof (cases "nodoPositivo e \<in> S \<longleftrightarrow> nodoNegativo e \<in> S")
    case True
    with Cons.prems have "pasada els S False = (S', False)" by (auto split: if_splits)
    from Cons.IH[OF this] True show ?thesis by simp
  next
    case False
    with Cons.prems have "\<exists>T. pasada els T True = (S', False)" by (auto split: if_splits)
    then show ?thesis using pasada_marcada by blast
  qed
qed

lemma pasada_alcanzables:
  "set els' \<subseteq> set els \<Longrightarrow> S \<subseteq> alcanzables els g \<Longrightarrow> pasada els' S c = (S', c') \<Longrightarrow>
     S' \<subseteq> alcanzables els g"
proof (induction els' arbitrary: S c)
  case Nil
  then show ?case by simp
next
  case (Cons e els')
  from Cons.prems(1) have e: "e \<in> set els" and sub: "set els' \<subseteq> set els" by simp_all
  show ?case
  proof (cases "nodoPositivo e \<in> S \<and> nodoNegativo e \<notin> S")
    case True
    with Cons.prems(2) have "nodoNegativo e \<in> alcanzables els g"
      using alcanzables.porPositivo[OF e] by blast
    with Cons.prems(2) have s: "insert (nodoNegativo e) S \<subseteq> alcanzables els g" by simp
    from True Cons.prems(3) have "pasada els' (insert (nodoNegativo e) S) True = (S', c')" by simp
    from Cons.IH[OF sub s this] show ?thesis .
  next
    case False
    note nf = False
    show ?thesis
    proof (cases "nodoNegativo e \<in> S \<and> nodoPositivo e \<notin> S")
      case True
      with Cons.prems(2) have "nodoPositivo e \<in> alcanzables els g"
        using alcanzables.porNegativo[OF e] by blast
      with Cons.prems(2) have s: "insert (nodoPositivo e) S \<subseteq> alcanzables els g" by simp
      from True nf Cons.prems(3) have "pasada els' (insert (nodoPositivo e) S) True = (S', c')"
        by simp
      from Cons.IH[OF sub s this] show ?thesis .
    next
      case False
      with nf Cons.prems(3) have "pasada els' S c = (S', c')" by (auto split: if_splits)
      from Cons.IH[OF sub Cons.prems(2) this] show ?thesis .
    qed
  qed
qed

lemma conectar_cerrado:
  "S \<subseteq> conectar els S \<and>
   (\<forall>e\<in>set els. nodoPositivo e \<in> conectar els S \<longleftrightarrow> nodoNegativo e \<in> conectar els S) \<and>
   (S \<subseteq> alcanzables els g \<longrightarrow> conectar els S \<subseteq> alcanzables els g)"
proof (induction els S rule: conectar.induct)
  case (1 els S)
  obtain S' c' where p: "pasada els S False = (S', c')" by (cases "pasada els S False")
  note crece = pasada_contiene[OF p]
  show ?case
  proof (cases c')
    case True
    have eq: "conectar els S = conectar els S'"
      using p True by (subst conectar.simps) simp
    from "1.IH"[OF p[symmetric] True] crece pasada_alcanzables[OF subset_refl _ p, of g]
    show ?thesis unfolding eq by blast
  next
    case False
    have eq: "conectar els S = S'"
      using p False by (subst conectar.simps) simp
    from pasada_sin_cambio[of els S S'] p False
    have "S' = S" "\<forall>e\<in>set els. nodoPositivo e \<in> S \<longleftrightarrow> nodoNegativo e \<in> S" by simp_all
    then show ?thesis unfolding eq by simp
  qed
qed

text \<open>The set the connectivity loop of \<^verbatim>\<open>analizarCircuito\<close> computes is the set of the nodes
  reachable from the ground node.\<close>

lemma conectar_alcanzables: "conectar els {g} = alcanzables els g"
proof
  show "conectar els {g} \<subseteq> alcanzables els g"
    using conectar_cerrado[of "{g}" els g] alcanzables.tierra[of g els] by simp
next
  show "alcanzables els g \<subseteq> conectar els {g}"
  proof
    fix x assume "x \<in> alcanzables els g"
    then show "x \<in> conectar els {g}"
    proof (induction rule: alcanzables.induct)
      case tierra
      then show ?case using conectar_cerrado[of "{g}" els g] by simp
    next
      case (porPositivo e)
      then show ?case using conectar_cerrado[of "{g}" els g] by blast
    next
      case (porNegativo e)
      then show ?case using conectar_cerrado[of "{g}" els g] by blast
    qed
  qed
qed

subsection \<open>Element values in the assembly\<close>

text \<open>C5, as stated, does not hold: a resistor of negative value, a capacitor of value zero
  and an inductor of negative value are stamped by \<^verbatim>\<open>construirMatrizG\<close> without any error.\<close>

theorem valores_no_positivos_sin_error:
  "tipo resistorNegativo = TipoR \<and> valor resistorNegativo < 0 \<and>
   construirMatrizG [resistorNegativo] 2 0 0 =
     Inr \<lparr>filas = 1, columnas = 1, datos = [[- (1 / 1000)]]\<rparr> \<and>
   tipo capacitorCero = TipoC \<and> valor capacitorCero = 0 \<and>
   construirMatrizG [capacitorCero] 2 0 0 = Inr \<lparr>filas = 1, columnas = 1, datos = [[0]]\<rparr> \<and>
   tipo inductorNegativo = TipoL \<and> valor inductorNegativo < 0 \<and>
   construirMatrizG [inductorNegativo] 2 0 0 =
     Inr \<lparr>filas = 1, columnas = 1, datos = [[1000000000000]]\<rparr>"
  by (simp add: resistorNegativo_def capacitorCero_def inductorNegativo_def construirMatrizG_def
      esPasivo_def mathZeros_def estampaG_def conductancia_def nodoAIndice_def
      sumarElemento_def poner_def obtener_def Let_def)

lemma estamparG_append:
  "estamparG g f G (xs @ ys) = luego (estamparG g f G xs) (\<lambda>G'. estamparG g f G' ys)"
proof (induction xs arbitrary: G)
  case Nil
  then show ?case by simp
next
  case (Cons a xs)
  then show ?case by (cases "estampaG g f G a") simp_all
qed

lemma conductancia_sin_error: "\<not> esResistorCero e \<Longrightarrow> \<exists>y. conductancia e f = Inr y"
  by (auto simp add: conductancia_def Let_def esResistorCero_def split: tipoElemento.splits)

lemma estamparG_sin_error:
  assumes n: "1 \<le> n" and f: "forma G (nat (n - 1)) (nat (n - 1))"
    and xs: "\<forall>e\<in>set xs. terminalesEnMatriz n g e \<and> \<not> esResistorCero e"
  shows "\<exists>G'. estamparG g fr G xs = Inr G' \<and> forma G' (nat (n - 1)) (nat (n - 1))"
proof -
  define N where "N = nat (n - 1)"
  define v :: "complex list" where "v = replicate N 0"
  have lv: "length v = N" by (simp add: v_def)
  have iN: "int N = n - 1" using n by (simp add: N_def)
  have an: "\<forall>k<N. escalar (datos G ! k) v = 0"
    by (simp add: v_def escalar_ceros)
  have "\<forall>e\<in>set xs. compatible g N v e \<and> (\<exists>y. conductancia e fr = Inr y)"
  proof
    fix e assume e: "e \<in> set xs"
    with xs have t: "terminalesEnMatriz n g e" and r: "\<not> esResistorCero e" by simp_all
    have cero: "v ! nat i = 0" if "0 \<le> i" "i < n - 1" for i
    proof -
      from that iN have "nat i < N" by linarith
      then show ?thesis by (simp add: v_def)
    qed
    from t have "compatible g N v e"
      by (auto simp add: compatible_def terminalesEnMatriz_def Let_def iN cero)
    with conductancia_sin_error[OF r] show "compatible g N v e \<and> (\<exists>y. conductancia e fr = Inr y)"
      by simp
  qed
  from estamparG_anula[OF lv f[folded N_def] an this] show ?thesis
    unfolding N_def by blast
qed

text \<open>C5, amended. Take a list \<open>antes\<close> of elements whose passive ones have their terminals
  inside the matrix and are not resistors of value exactly zero: \<^verbatim>\<open>construirMatrizG\<close>
  returns a matrix for it, whatever the signs of the values and whatever the values of the
  capacitors and inductors. If a resistor \<open>r\<close> of value exactly zero comes next, the round
  of the loop for \<open>r\<close> raises 'Resistor ... tiene valor cero' on that matrix before any
  entry is written, and \<^verbatim>\<open>construirMatrizG\<close> raises this error for the whole list, whatever
  follows \<open>r\<close>.\<close>

theorem resistor_cero_rechazado:
  assumes n: "1 \<le> n"
    and antes: "\<forall>a\<in>set antes. esPasivo a \<longrightarrow> terminalesEnMatriz n g a \<and> \<not> esResistorCero a"
  shows "(\<exists>G. construirMatrizG antes n g f = Inr G \<and>
              (esResistorCero r \<longrightarrow> estampaG g f G r = Inl (ResistorCero (nombre r)))) \<and>
         (esResistorCero r \<longrightarrow>
            construirMatrizG (antes @ r # despues) n g f = Inl (ResistorCero (nombre r)))"
proof -
  have n1: "0 \<le> n - 1" using n by simp
  from mathZeros_forma[OF n1 n1] obtain G0 where
    z: "mathZeros (n - 1) (n - 1) = Inr G0" and f0: "forma G0 (nat (n - 1)) (nat (n - 1))"
    by auto
  have "\<forall>e\<in>set (filter esPasivo antes). terminalesEnMatriz n g e \<and> \<not> esResistorCero e"
    using antes by simp
  from estamparG_sin_error[OF n f0 this] obtain G where
    G: "estamparG g f G0 (filter esPasivo antes) = Inr G" by blast
  have c: "construirMatrizG antes n g f = Inr G"
    by (simp add: construirMatrizG_def z G)
  have e: "estampaG g f G' r = Inl (ResistorCero (nombre r))" if "esResistorCero r" for G'
    using that by (simp add: estampaG_def conductancia_def esResistorCero_def)
  have t: "construirMatrizG (antes @ r # despues) n g f = Inl (ResistorCero (nombre r))"
    if r: "esResistorCero r"
  proof -
    from r have "esPasivo r" by (simp add: esResistorCero_def esPasivo_def)
    then have "filter esPasivo (antes @ r # despues) =
                 filter esPasivo antes @ r # filter esPasivo despues" by simp
    then show ?thesis
      by (simp add: construirMatrizG_def z estamparG_append G e[OF r])
  qed
  from c e t show ?thesis by blast
qed

theorem resistor_cero_rechazado_witness:
  "esResistorCero resistorCero \<and>
   (\<exists>G. construirMatrizG [fuenteV1, resistorNegativo, capacitorCero, inductorNegativo] 2 0 0
           = Inr G \<and>
        estampaG 0 0 G resistorCero = Inl (ResistorCero ''R0'')) \<and>
   construirMatrizG
     ([fuenteV1, resistorNegativo, capacitorCero, inductorNegativo] @
      resistorCero # [resistorFuera]) 2 0 0 = Inl (ResistorCero ''R0'')"
proof -
  have a: "\<forall>a\<in>set [fuenteV1, resistorNegativo, capacitorCero, inductorNegativo].
             esPasivo a \<longrightarrow> terminalesEnMatriz 2 0 a \<and> \<not> esResistorCero a"
    by (simp add: fuenteV1_def resistorNegativo_def capacitorCero_def inductorNegativo_def
        esPasivo_def terminalesEnMatriz_def esResistorCero_def nodoAIndice_def)
  have r: "esResistorCero resistorCero" "nombre resistorCero = ''R0''"
    by (simp_all add: esResistorCero_def resistorCero_def)
  have n: "(1::int) \<le> 2" by simp
  from resistor_cero_rechazado[OF n a, of 0 resistorCero "[resistorFuera]"] r
  show ?thesis by simp
qed

subsection \<open>The analysis of a circuit with a floating node\<close>

lemma conductancia_valida:
  "esPasivo e \<Longrightarrow> 0 < valor e \<Longrightarrow> \<exists>y. conductancia e f = Inr y"
  by (auto simp add: conductancia_def Let_def esPasivo_def)

lemma escalar_ceros_izq: "(\<forall>x\<in>set xs. x = 0) \<Longrightarrow> escalar xs ys = 0"
proof (induction xs arbitrary: ys)
  case Nil
  then show ?case by simp
next
  case (Cons a xs)
  then show ?case by (cases ys) simp_all
qed

text \<open>For a well-formed circuit \<^verbatim>\<open>construirMatrizG\<close> returns a matrix, of size
  \<open>numNodes - 1\<close>, and the indicator of the unreachable nodes is orthogonal to its rows.\<close>

lemma valido_G:
  assumes val: "circuitoValido els n g f"
  shows "\<exists>G. construirMatrizG els n g f = Inr G \<and> forma G (nat (n - 1)) (nat (n - 1)) \<and>
           (\<forall>k<nat (n - 1). escalar (datos G ! k) (indicador els g (nat (n - 1))) = 0)"
proof -
  define N where "N = nat (n - 1)"
  define v where "v = indicador els g N"
  from val have n2: "2 \<le> n" and g: "0 \<le> g" "g < n"
    and ev: "\<And>e. e \<in> set els \<Longrightarrow> elementoValido n e"
    by (simp_all add: circuitoValido_def)
  have lv: "length v = N" by (simp add: v_def indicador_def)
  have cv: "compatibleV g N v e" if "e \<in> set els" for e
    unfolding N_def v_def using valido_compatible[OF g that ev[OF that]] by (simp add: N_def)
  have n1: "0 \<le> n - 1" using n2 by simp
  from mathZeros_forma[OF n1 n1] obtain G0 where
    zG: "mathZeros (n - 1) (n - 1) = Inr G0" and fG0: "forma G0 N N" and
    eG0: "\<forall>k<N. \<forall>l<N. datos G0 ! k ! l = 0" by (auto simp add: N_def)
  have aG0: "\<forall>k<N. escalar (datos G0 ! k) v = 0"
  proof (intro allI impI)
    fix k assume k: "k < N"
    have "length (datos G0 ! k) = N" using fG0 k by (rule forma_fila)
    with eG0 k have "\<forall>y\<in>set (datos G0 ! k). y = 0" by (auto simp add: in_set_conv_nth)
    then show "escalar (datos G0 ! k) v = 0" by (rule escalar_ceros_izq)
  qed
  have pas: "\<forall>e\<in>set (filter esPasivo els). compatible g N v e \<and> (\<exists>y. conductancia e f = Inr y)"
  proof
    fix e assume "e \<in> set (filter esPasivo els)"
    then have e: "e \<in> set els" "esPasivo e" by simp_all
    from ev[OF e(1)] e(2) have "0 < valor e" by (simp add: elementoValido_def)
    from conductancia_valida[OF e(2) this] cv[OF e(1)]
    show "compatible g N v e \<and> (\<exists>y. conductancia e f = Inr y)"
      by (simp add: compatibleV_def)
  qed
  from estamparG_anula[OF lv fG0 aG0 pas] obtain G where
    sG: "estamparG g f G0 (filter esPasivo els) = Inr G" and fG: "forma G N N" and
    aG: "\<forall>k<N. escalar (datos G ! k) v = 0" by blast
  have "construirMatrizG els n g f = Inr G"
    by (simp add: construirMatrizG_def zG sG)
  with fG aG show ?thesis unfolding N_def v_def by blast
qed

text \<open>C2. Whenever \<^verbatim>\<open>construirMatrizG\<close> returns a matrix, it is the matrix of the stamping
  rule: from the zero matrix of size \<open>numNodes - 1\<close>, every passive element adds its
  admittance on the diagonal at each terminal that is not the ground node and subtracts it
  at the two off-diagonal positions when neither terminal is; the other elements add
  nothing. For every well-formed circuit it does return that matrix. (It returns none when
  a resistor has value zero, an index lies outside the matrix or \<open>numNodes\<close> is below 1.)\<close>

theorem construirMatrizG_es_estampado:
  "(construirMatrizG els n g f = Inr G \<longrightarrow> G = estampadoDeReferencia els n g f) \<and>
   (circuitoValido els n g f \<longrightarrow>
      construirMatrizG els n g f = Inr (estampadoDeReferencia els n g f))"
proof -
  have 1: "G = estampadoDeReferencia els n g f" if a: "construirMatrizG els n g f = Inr G" for G
  proof -
    from a obtain G0 where z: "mathZeros (n - 1) (n - 1) = Inr G0"
      and s: "estamparG g f G0 (filter esPasivo els) = Inr G"
      by (auto simp add: construirMatrizG_def luego_eq_Inr)
    from z have G0: "G0 = \<lparr>filas = nat (n - 1), columnas = nat (n - 1),
          datos = replicate (nat (n - 1)) (replicate (nat (n - 1)) 0)\<rparr>"
      by (auto simp add: mathZeros_def split: if_splits)
    have "list_all esPasivo (filter esPasivo els)" by (simp add: list_all_iff)
    from estamparG_sellos[OF this s] show ?thesis
      by (simp add: estampadoDeReferencia_def fold_filtrado G0)
  qed
  have 2: "construirMatrizG els n g f = Inr (estampadoDeReferencia els n g f)"
    if "circuitoValido els n g f"
  proof -
    from valido_G[OF that] obtain G' where "construirMatrizG els n g f = Inr G'" by blast
    with 1[OF this] show ?thesis by simp
  qed
  from 1 2 show ?thesis by blast
qed

theorem construirMatrizG_es_estampado_witness:
  "circuitoValido divisor 3 0 0 \<and> construirMatrizG divisor 3 0 0 = Inr divisorG \<and>
   divisorG = estampadoDeReferencia divisor 3 0 0"
proof -
  have a: "circuitoValido divisor 3 0 0"
    by (simp add: circuitoValido_def elementoValido_def divisor_def fuenteV1_def esPasivo_def)
  from construirMatrizG_es_estampado[of divisor 3 0 0 divisorG] a divisor_G
  show ?thesis by simp
qed

text \<open>With exact numbers a node that is not reachable from the ground node is always
  reported. For every well-formed circuit with at least one voltage source in which some
  node is not reachable from the ground node, the vector that is 1 at the unreachable nodes
  and 0 elsewhere is in the kernel of \<open>A\<close>: the exact determinant is zero, and the exact
  analysis ends in the singular-matrix error of \<^verbatim>\<open>resolverSistema\<close>. (The connectivity loop
  of \<^verbatim>\<open>analizarCircuito\<close>, which finds exactly these nodes, only warns; and the determinant
  that the engine computes on doubles need not be zero, see the floating island below.)\<close>

lemma nodo_flotante_sistema_singular:
  assumes val: "circuitoValido els n g f"
    and fv: "filter esFuenteV els \<noteq> []"
    and u: "0 \<le> u" "u < n" "u \<notin> alcanzables els g"
  shows "analizarCircuito els n g f = fallo (ErrorAlResolver MatrizSingularDetectada)"
proof -
  define N where "N = nat (n - 1)"
  define m where "m = length (filter esFuenteV els)"
  define v where "v = indicador els g N"
  from val have ne: "els \<noteq> []" and n2: "2 \<le> n" and g: "0 \<le> g" "g < n" and f0: "0 \<le> f"
    and ev: "\<And>e. e \<in> set els \<Longrightarrow> elementoValido n e"
    by (simp_all add: circuitoValido_def)
  have m0: "m \<noteq> 0" using fv by (simp add: m_def)
  have lv: "length v = N" by (simp add: v_def indicador_def)
  have cv: "compatibleV g N v e" if "e \<in> set els" for e
    unfolding N_def v_def using valido_compatible[OF g that ev[OF that]] by (simp add: N_def)
  have rango: "nodoAIndice (nodoPositivo e) g < int N \<and> nodoAIndice (nodoNegativo e) g < int N"
    if "e \<in> set els" for e
    using cv[OF that] by (simp add: compatibleV_def compatible_def Let_def)
  have n1: "0 \<le> n - 1" using n2 by simp
  \<comment> \<open>the block G\<close>
  from valido_G[OF val] obtain G where
    cG: "construirMatrizG els n g f = Inr G" and fG: "forma G N N" and
    aG: "\<forall>k<N. escalar (datos G ! k) v = 0" unfolding N_def v_def by blast
  \<comment> \<open>the block B\<close>
  have mi: "0 \<le> int m" by simp
  from mathZeros_forma[OF n1 mi] obtain B0 where
    zB: "mathZeros (n - 1) (int m) = Inr B0" and fB0: "forma B0 N m" and
    eB0: "\<forall>k<N. \<forall>l<m. datos B0 ! k ! l = 0" by (auto simp add: N_def)
  have lB0: "length (datos B0) = N" using fB0 by (simp add: forma_def)
  have aB0: "\<forall>l<m. escalar (columna B0 l) v = 0"
  proof (intro allI impI)
    fix l assume l: "l < m"
    have "\<forall>y\<in>set (columna B0 l). y = 0"
      using eB0 l lB0 by (auto simp add: columna_def in_set_conv_nth)
    then show "escalar (columna B0 l) v = 0" by (rule escalar_ceros_izq)
  qed
  have zB0: "\<forall>l<m. 0 \<le> l \<longrightarrow> (\<forall>k<N. datos B0 ! k ! l = 0)" using eB0 by simp
  have lenB: "0 + length (filter esFuenteV els) \<le> m" by (simp add: m_def)
  have fuentes: "\<forall>e\<in>set (filter esFuenteV els). compatibleV g N v e" using cv by simp
  from estamparB_anula[OF lv fB0 lenB aB0 zB0 fuentes] obtain B where
    sB: "estamparB g B0 0 (filter esFuenteV els) = Inr B" and fB: "forma B N m" and
    aB: "\<forall>l<m. escalar (columna B l) v = 0" by blast
  have cB: "construirMatrizB els n g = Inr B"
    using fv by (simp add: construirMatrizB_def Let_def m_def[symmetric] zB sB)
  \<comment> \<open>C, D and A\<close>
  have N0: "N \<noteq> 0" using n2 by (simp add: N_def)
  from ensamblar_anula[OF fG fB N0 m0 lv aG aB] obtain C D A where
    cC: "construirMatrizC B = Inr C" and cD: "construirMatrizD m = Inr D" and
    cA: "ensamblarMatrizA G B C D = Inr A" and fA: "forma A (N + m) (N + m)" and
    aA: "\<forall>r\<in>set (datos A). escalar r (v @ replicate m 0) = 0" by blast
  \<comment> \<open>the vectors\<close>
  have uno: "0 \<le> (1::int)" by simp
  from mathZeros_forma[OF n1 uno] obtain i0 where
    zi: "mathZeros (n - 1) 1 = Inr i0" and fi0: "forma i0 N 1" by (auto simp add: N_def)
  have "\<forall>e\<in>set (filter esFuenteI els).
          nodoAIndice (nodoPositivo e) g < int N \<and> nodoAIndice (nodoNegativo e) g < int N"
    using rango by simp
  from estamparI_forma[OF fi0 this] obtain i where
    si: "estamparI g i0 (filter esFuenteI els) = Inr i" and fi: "forma i N 1" by blast
  have cI: "construirVectorI els n g = Inr i"
    by (simp add: construirVectorI_def zi si)
  from mathZeros_forma[OF mi uno] obtain e0 where
    ze: "mathZeros (int m) 1 = Inr e0" and fe0: "forma e0 m 1" by auto
  have fe: "forma (llenarE e0 0 (filter esFuenteV els)) m 1"
    using fe0 by (rule llenarE_forma) (simp add: m_def)
  have cE: "construirVectorE els = Inr (llenarE e0 0 (filter esFuenteV els))"
    using fv by (simp add: construirVectorE_def Let_def m_def[symmetric] ze)
  obtain z where cZ: "ensamblarVectorZ i (llenarE e0 0 (filter esFuenteV els)) = Inr z"
    and fz: "filas z = N + m"
    using fi fe N0 m0 by (simp add: ensamblarVectorZ_def mathConcat0_def forma_def)
  \<comment> \<open>the determinant\<close>
  have ug: "u \<noteq> g" using u(3) alcanzables.tierra by blast
  have "v ! nat (nodoAIndice u g) = 1"
    unfolding v_def N_def using indicador_nodo[OF g u(1,2) ug, of els] u(3) by simp
  moreover have "nat (nodoAIndice u g) < N"
    unfolding N_def using indice_en_rango(5)[OF g u(1,2)] ug by simp
  ultimately have "\<exists>y\<in>set v. y \<noteq> 0"
    using lv by (metis nth_mem zero_neq_one)
  then have nz: "\<exists>y\<in>set (v @ replicate m 0). y \<noteq> 0" by auto
  have lA: "length (datos A) = N + m" and rA: "\<forall>r\<in>set (datos A). length r = N + m"
    using fA by (simp_all add: forma_def)
  have lx: "length (v @ replicate m 0) = N + m" using lv by simp
  have det0: "detElim (N + m) (datos A) = 0"
    using lA rA lx nz aA by (rule detElim_nucleo)
  have dA: "mathDet A = Inr 0"
    using fA det0 by (simp add: mathDet_def forma_def)
  have rS: "resolverSistema A z = Inl (ErrorAlResolver MatrizSingularDetectada)"
    using dA by (simp add: resolverSistema_def intentarResolver_def mathSize_def)
  have "intentarAnalizar els n g f = Inl (ErrorAlResolver MatrizSingularDetectada)"
    using ne n2 g f0
    by (simp add: intentarAnalizar_def Let_def m_def[symmetric] cG cB cC cD cA cI cE cZ rS)
  then show ?thesis by (simp add: analizarCircuito_def)
qed

subsection \<open>Double precision\<close>

text \<open>The rounding is evaluated by the definitions: \<open>redondear\<close> of a literal unfolds to
  the search of its exponent and the rounding of its significand.\<close>

lemmas evaluar_redondeo = redondear_def ulp_def redondeoPar_def exponente.simps

lemma redondear_cero [simp]: "redondear 0 = 0"
  by (simp add: redondear_def redondeoPar_def)

lemma literales:
  "redondear (3 / 1000) = 3458764513820541 / 1152921504606846976"
  "redondear (7 / 1000) = 8070450532247929 / 1152921504606846976"
  "redondear (11 / 1000) = 3170534137668829 / 288230376151711744"
  "redondear 1000 = 1000"
  "redondear (1 / 10000000000) = 7737125245533627 / 77371252455336267181195264"
  by (simp_all add: evaluar_redondeo)

text \<open>Two checks of the embedding against computations whose result in doubles is known.
  For the resistor divider the determinant that \<^verbatim>\<open>math.det\<close> computes is the double
  of \<open>-0.002\<close>, the exact determinant rounded. The matrix \<open>[[1, 2], [2, 4]]\<close> has the
  determinant \<open>1 * 4 - 2 * 2 = 0\<close> in doubles as with exact numbers.\<close>

lemma divisor_en_dobles:
  "\<exists>A. ensamblarAD divisor 3 0 = Inr A \<and> mathDetD A = Inr (redondear (- (2 / 1000)))"
proof -
  let ?g = "1152921504606847 / 1152921504606846976 :: complex"
  let ?G = "\<lparr>filas = 2, columnas = 2, datos = [[?g, - ?g], [- ?g, 2 * ?g]]\<rparr>"
  let ?A = "\<lparr>filas = 3, columnas = 3, datos = [[?g, - ?g, 1], [- ?g, 2 * ?g, 0], [1, 0, 0]]\<rparr>"
  have G: "construirMatrizGD divisor 3 0 = Inr ?G"
    by (simp add: construirMatrizGD_def divisor_def fuenteV1_def esPasivo_def
        mathZeros_def estampaGD_def conductanciaD_def nodoAIndice_def sumarElementoD_def poner_def
        obtener_def numeral_eq_Suc literales)
      (simp add: masD_def porD_def entreD_def evaluar_redondeo)
  have fv: "length (filter esFuenteV divisor) = Suc 0"
    by (simp add: divisor_def fuenteV1_def esFuenteV_def)
  have A: "ensamblarAD divisor 3 0 = Inr ?A"
    by (simp add: ensamblarAD_def G divisor_B divisorB_def fv construirMatrizC_def
        mathTranspose_def construirMatrizD_def mathZeros_def ensamblarMatrizA_def
        mathConcat1_def mathConcat0_def)
  have "mathDetD ?A = Inr (redondear (- (2 / 1000)))"
    by (simp add: mathDetD_def detD_def pasoBareiss_def intercambiar_def upt_conv_Cons
        masD_def menosD_def porD_def entreD_def evaluar_redondeo)
  with A show ?thesis by blast
qed

lemma singular_en_dobles:
  "mathDetD \<lparr>filas = 2, columnas = 2, datos = [[1, 2], [2, 4]]\<rparr> = Inr 0"
  by (simp add: mathDetD_def detD_def masD_def menosD_def porD_def evaluar_redondeo)

text \<open>An exactly singular matrix of integers (the third row is the sum of the first two)
  whose determinant on doubles is not near zero: the products of the elimination exceed
  \<open>2 ^ 53\<close> and are rounded. The test of \<^verbatim>\<open>resolverSistema\<close> does not find it singular.\<close>

lemma singular_entera_en_dobles:
  "detElim 3 [[1000000001, 1000000005, 1000000007], [1000000010, 1000000003, 1000000008],
              [2000000011, 2000000008, 2000000015]] = 0"
  "pruebaSingularD \<lparr>filas = 3, columnas = 3,
     datos = [[1000000001, 1000000005, 1000000007], [1000000010, 1000000003, 1000000008],
              [2000000011, 2000000008, 2000000015]]\<rparr> = Inr (- (6192449481441983 / 4398046511104))"
proof -
  show "detElim 3 [[1000000001, 1000000005, 1000000007], [1000000010, 1000000003, 1000000008],
              [2000000011, 2000000008, 2000000015]] = 0"
    by (simp add: numeral_3_eq_3 reducir_def quitar_def)
  have "mathDetD \<lparr>filas = 3, columnas = 3,
     datos = [[1000000001, 1000000005, 1000000007], [1000000010, 1000000003, 1000000008],
              [2000000011, 2000000008, 2000000015]]\<rparr> = Inr (- (6192449481441983 / 4398046511104))"
    by (simp add: mathDetD_def detD_def pasoBareiss_def intercambiar_def upt_conv_Cons
        masD_def menosD_def porD_def entreD_def evaluar_redondeo)
  then show "pruebaSingularD \<lparr>filas = 3, columnas = 3,
     datos = [[1000000001, 1000000005, 1000000007], [1000000010, 1000000003, 1000000008],
              [2000000011, 2000000008, 2000000015]]\<rparr> = Inr (- (6192449481441983 / 4398046511104))"
    by (simp add: pruebaSingularD_def literales)
qed

subsection \<open>The floating island\<close>

lemma isla_G: "construirMatrizGD isla 5 0 = Inr islaG"
  by (simp add: islaG_def construirMatrizGD_def isla_def fuenteV1_def esPasivo_def
      mathZeros_def estampaGD_def conductanciaD_def nodoAIndice_def sumarElementoD_def poner_def
      obtener_def numeral_eq_Suc literales)
    (simp add: masD_def porD_def entreD_def evaluar_redondeo)

lemma isla_A: "ensamblarAD isla 5 0 = Inr islaA"
proof -
  have B: "construirMatrizB isla 5 0 =
             Inr \<lparr>filas = 4, columnas = 1, datos = [[1], [0], [0], [0]]\<rparr>"
    by (simp add: construirMatrizB_def isla_def fuenteV1_def esFuenteV_def mathZeros_def
        nodoAIndice_def establecerElemento_def poner_def Let_def numeral_eq_Suc)
  have fv: "length (filter esFuenteV isla) = Suc 0"
    by (simp add: isla_def fuenteV1_def esFuenteV_def)
  show ?thesis
    by (simp add: ensamblarAD_def isla_G B fv construirMatrizC_def mathTranspose_def
        construirMatrizD_def mathZeros_def ensamblarMatrizA_def mathConcat1_def mathConcat0_def
        islaG_def islaA_def)
qed

lemma isla_det: "mathDetD islaA = Inr (5183411959515429 / 1208925819614629174706176)"
  by (simp add: mathDetD_def islaA_def detD_def pasoBareiss_def intercambiar_def
      upt_conv_Cons masD_def menosD_def porD_def entreD_def evaluar_redondeo)

lemma isla_alcanzables: "x \<in> alcanzables isla 0 \<Longrightarrow> x = 0 \<or> x = 1"
  by (induction rule: alcanzables.induct) (auto simp add: isla_def fuenteV1_def)

text \<open>The island circuit is well-formed, and with exact numbers its analysis is refused:
  the matrix \<open>A\<close> is singular.\<close>

lemma isla_valida: "circuitoValido isla 5 0 0"
  by (simp add: circuitoValido_def elementoValido_def isla_def fuenteV1_def esPasivo_def)

lemma isla_exacta:
  "analizarCircuito isla 5 0 0 = fallo (ErrorAlResolver MatrizSingularDetectada)"
proof -
  have v: "filter esFuenteV isla \<noteq> []" by (simp add: isla_def fuenteV1_def esFuenteV_def)
  have u: "2 \<notin> alcanzables isla 0" using isla_alcanzables[of 2] by auto
  from nodo_flotante_sistema_singular[OF isla_valida v _ _ u] show ?thesis by simp
qed

text \<open>C6. In the circuit \<open>isla\<close> the nodes 2, 3 and 4 are not reachable from the ground
  node, and the circuit is well-formed (\<open>isla_valida\<close>). On doubles the matrix \<open>A\<close> that the
  engine assembles is \<open>islaA\<close>, and the elimination of \<^verbatim>\<open>math.det\<close> leaves the rounding
  error \<open>5183411959515429 / 2 ^ 80\<close> (about \<open>4.29e-9\<close>) as its determinant, where the exact
  determinant is \<open>0\<close>. This is not below \<open>1e-10\<close>: the test of \<^verbatim>\<open>resolverSistema\<close> does not
  raise the singular-matrix error, and the engine goes on to solve the system.\<close>

theorem isla_sin_error_singular:
  "2 \<notin> alcanzables isla 0 \<and> 3 \<notin> alcanzables isla 0 \<and> 4 \<notin> alcanzables isla 0 \<and>
   ensamblarAD isla 5 0 = Inr islaA \<and>
   mathDetD islaA = Inr (5183411959515429 / 2 ^ 80) \<and>
   pruebaSingularD islaA = Inr (5183411959515429 / 2 ^ 80)"
proof -
  have "2 \<notin> alcanzables isla 0" "3 \<notin> alcanzables isla 0" "4 \<notin> alcanzables isla 0"
    using isla_alcanzables[of 2] isla_alcanzables[of 3] isla_alcanzables[of 4] by auto
  moreover have "pruebaSingularD islaA = Inr (5183411959515429 / 2 ^ 80)"
    by (simp add: pruebaSingularD_def isla_det literales)
  ultimately show ?thesis by (simp add: isla_A isla_det)
qed

end
